theory Spec2Isabelle
  imports Main
begin

section \<open>The client and project API of \<open>client_project.py\<close>\<close>

text \<open>
  The file declares two models (\<open>Client\<close>, \<open>Project\<close>), six serializers and four
  generic views on top of Django and Django REST framework. The views are embedded
  together with the part of the generic machinery they inherit and run: the order
  permission check, object lookup, validation, save, rendering; the exceptions each
  step raises; and the status the framework gives each exception.

  Conventions of the embedding:
  \<^item> the database is a record of tables, each a list of rows in insertion order; a query
    without \<open>ORDER BY\<close> returns rows in the order of the table it scans;
  \<^item> a timestamp is a natural number (an instant), rendered as that number; one request
    reads one instant \<open>now\<close>;
  \<^item> a string is a list of characters with code points below 256;
  \<^item> JSON numbers are integers;
  \<^item> the methods are GET, POST, PUT, PATCH and DELETE.
\<close>

subsection \<open>JSON values and Python dictionaries\<close>

datatype json =
    JNull
  | JBool bool
  | JInt int
  | JStr string
  | JList "json list"
  | JObj "(string \<times> json) list"

text \<open>A JSON object read into a Python dict: a repeated key keeps its last value.\<close>

definition dict_get :: "(string \<times> json) list \<Rightarrow> string \<Rightarrow> json option" where
  "dict_get kvs k = map_of (rev kvs) k"

text \<open>Iterating a dict yields each key once, at the position of its first occurrence.\<close>

fun dict_keys :: "(string \<times> json) list \<Rightarrow> string list" where
  "dict_keys [] = []"
| "dict_keys ((k, v) # kvs) = k # filter (\<lambda>k'. k' \<noteq> k) (dict_keys kvs)"

text \<open>\<open>d[k] = v\<close> on a dict: an existing key keeps its position.\<close>

fun dict_set :: "(string \<times> json) list \<Rightarrow> string \<Rightarrow> json \<Rightarrow> (string \<times> json) list" where
  "dict_set [] k v = [(k, v)]"
| "dict_set ((k', v') # kvs) k v =
     (if k' = k then (k, v) # kvs else (k', v') # dict_set kvs k v)"

subsection \<open>Models\<close>

type_synonym timestamp = nat

record user =
  uid :: nat
  username :: string

text \<open>\<open>class Client(models.Model)\<close>; \<open>created_by\<close> is a nullable foreign key.\<close>

record client =
  cid :: nat
  client_name :: string
  c_created_at :: timestamp
  c_created_by :: "nat option"
  c_updated_at :: timestamp

text \<open>\<open>class Project(models.Model)\<close>; the many-to-many \<open>users\<close> is the table
  \<open>project_users\<close> of the database below.\<close>

record project =
  pid :: nat
  project_name :: string
  p_client :: nat
  p_created_at :: timestamp
  p_created_by :: "nat option"

text \<open>The tables \<open>auth_user\<close>, \<open>client\<close>, \<open>project\<close>, \<open>project_users\<close> (rows
  \<open>(project_id, user_id)\<close>) and the two auto-increment counters.\<close>

record db =
  users :: "user list"
  clients :: "client list"
  projects :: "project list"
  project_users :: "(nat \<times> nat) list"
  next_client_id :: nat
  next_project_id :: nat

subsection \<open>Exceptions and responses\<close>

datatype exn =
    NotAuthenticated
  | ValidationError "(string \<times> string) list"
  | Http404
  | MethodNotAllowed
  | DoesNotExist
  | KeyError string
  | ValueError
  | TypeError
  | AttributeError

record response =
  status :: nat
  data :: "json option"

text \<open>The framework's exception handler turns its own exceptions into responses; any
  other exception leaves the view and the server answers 500.\<close>

fun exn_status :: "exn \<Rightarrow> nat" where
  "exn_status NotAuthenticated = 401"
| "exn_status (ValidationError es) = 400"
| "exn_status Http404 = 404"
| "exn_status MethodNotAllowed = 405"
| "exn_status DoesNotExist = 500"
| "exn_status (KeyError k) = 500"
| "exn_status ValueError = 500"
| "exn_status TypeError = 500"
| "exn_status AttributeError = 500"

definition http_status :: "exn + response \<Rightarrow> nat" where
  "http_status r = (case r of Inl e \<Rightarrow> exn_status e | Inr resp \<Rightarrow> status resp)"

subsection \<open>Queries\<close>

definition get_user :: "db \<Rightarrow> nat \<Rightarrow> user option" where
  "get_user s i = find (\<lambda>u. uid u = i) (users s)"

definition get_client :: "db \<Rightarrow> nat \<Rightarrow> client option" where
  "get_client s i = find (\<lambda>c. cid c = i) (clients s)"

definition get_project :: "db \<Rightarrow> nat \<Rightarrow> project option" where
  "get_project s i = find (\<lambda>p. pid p = i) (projects s)"

text \<open>\<open>project.users.all()\<close>: the users joined to the project's rows of
  \<open>project_users\<close>, in the order of the users.\<close>

definition project_users_all :: "db \<Rightarrow> nat \<Rightarrow> user list" where
  "project_users_all s p = filter (\<lambda>u. (p, uid u) \<in> set (project_users s)) (users s)"

text \<open>\<open>user.assigned_projects.all()\<close>: the projects joined to the user's rows of
  \<open>project_users\<close>, in the order of those rows (the order of assignment).\<close>

definition assigned_projects :: "db \<Rightarrow> nat \<Rightarrow> project list" where
  "assigned_projects s u =
     concat (map (\<lambda>(p, v). if v = u then filter (\<lambda>q. pid q = p) (projects s) else [])
               (project_users s))"

text \<open>\<open>client.projects.all()\<close>.\<close>

definition client_projects :: "db \<Rightarrow> nat \<Rightarrow> project list" where
  "client_projects s c = filter (\<lambda>p. p_client p = c) (projects s)"

text \<open>Running a serializer over a sequence: the first exception ends it.\<close>

fun map_exn :: "('a \<Rightarrow> exn + 'b) \<Rightarrow> 'a list \<Rightarrow> exn + 'b list" where
  "map_exn f [] = Inr []"
| "map_exn f (x # xs) =
     (case f x of
        Inl e \<Rightarrow> Inl e
      | Inr y \<Rightarrow> (case map_exn f xs of Inl e \<Rightarrow> Inl e | Inr ys \<Rightarrow> Inr (y # ys)))"

subsection \<open>Serializers: rendering\<close>

text \<open>\<open>UserSerializer\<close>, fields \<open>['id', 'username']\<close>.\<close>

definition UserSerializer :: "user \<Rightarrow> json" where
  "UserSerializer u = JObj [(''id'', JInt (int (uid u))), (''username'', JStr (username u))]"

text \<open>A nullable foreign key rendered as a primary key: no row is fetched.\<close>

definition pk_repr :: "nat option \<Rightarrow> json" where
  "pk_repr r = (case r of None \<Rightarrow> JNull | Some i \<Rightarrow> JInt (int i))"

text \<open>Reading \<open>instance.created_by\<close>: \<open>None\<close> when the column is null, else the row is
  fetched, and a missing row raises.\<close>

definition fetch_created_by :: "db \<Rightarrow> nat option \<Rightarrow> exn + user option" where
  "fetch_created_by s r =
     (case r of
        None \<Rightarrow> Inr None
      | Some i \<Rightarrow> (case get_user s i of None \<Rightarrow> Inl DoesNotExist | Some u \<Rightarrow> Inr (Some u)))"

text \<open>The inherited \<open>to_representation\<close> of \<open>ProjectSerializer\<close>: fields
  \<open>['id', 'project_name', 'client', 'users', 'created_at', 'created_by']\<close>, with
  \<open>client\<close> a \<open>StringRelatedField\<close> (\<open>Client.__str__\<close> is the client's name) and
  \<open>users\<close> a nested \<open>UserSerializer(many=True)\<close>.\<close>

definition ProjectSerializer_super :: "db \<Rightarrow> project \<Rightarrow> exn + (string \<times> json) list" where
  "ProjectSerializer_super s p =
     (case get_client s (p_client p) of
        None \<Rightarrow> Inl DoesNotExist
      | Some c \<Rightarrow>
          Inr [(''id'', JInt (int (pid p))),
               (''project_name'', JStr (project_name p)),
               (''client'', JStr (client_name c)),
               (''users'', JList (map UserSerializer (project_users_all s (pid p)))),
               (''created_at'', JInt (int (p_created_at p))),
               (''created_by'', pk_repr (p_created_by p))])"

text \<open>
  \<^verbatim>\<open>
  def to_representation(self, instance):
      rep = super().to_representation(instance)
      rep['created_by'] = instance.created_by.username if instance.created_by else None
      return rep
  \<close>
\<close>

definition ProjectSerializer_to_representation :: "db \<Rightarrow> project \<Rightarrow> exn + json" where
  "ProjectSerializer_to_representation s p =
     (case ProjectSerializer_super s p of
        Inl e \<Rightarrow> Inl e
      | Inr rep \<Rightarrow>
          (case fetch_created_by s (p_created_by p) of
             Inl e \<Rightarrow> Inl e
           | Inr None \<Rightarrow> Inr (JObj (dict_set rep ''created_by'' JNull))
           | Inr (Some u) \<Rightarrow> Inr (JObj (dict_set rep ''created_by'' (JStr (username u))))))"

text \<open>A \<open>StringRelatedField\<close> on a nullable user: \<open>User.__str__\<close> is the username.\<close>

definition string_related_user :: "db \<Rightarrow> nat option \<Rightarrow> exn + json" where
  "string_related_user s r =
     (case fetch_created_by s r of
        Inl e \<Rightarrow> Inl e
      | Inr None \<Rightarrow> Inr JNull
      | Inr (Some u) \<Rightarrow> Inr (JStr (username u)))"

text \<open>\<open>ClientSerializer\<close>, fields
  \<open>['id', 'client_name', 'created_at', 'created_by', 'updated_at', 'projects']\<close>.\<close>

definition ClientSerializer :: "db \<Rightarrow> client \<Rightarrow> exn + json" where
  "ClientSerializer s c =
     (case string_related_user s (c_created_by c) of
        Inl e \<Rightarrow> Inl e
      | Inr cb \<Rightarrow>
          (case map_exn (ProjectSerializer_to_representation s) (client_projects s (cid c)) of
             Inl e \<Rightarrow> Inl e
           | Inr ps \<Rightarrow>
               Inr (JObj [(''id'', JInt (int (cid c))),
                          (''client_name'', JStr (client_name c)),
                          (''created_at'', JInt (int (c_created_at c))),
                          (''created_by'', cb),
                          (''updated_at'', JInt (int (c_updated_at c))),
                          (''projects'', JList ps)])))"

text \<open>\<open>ClientListSerializer\<close>, fields \<open>['id', 'client_name', 'created_at', 'created_by']\<close>.\<close>

definition ClientListSerializer :: "db \<Rightarrow> client \<Rightarrow> exn + json" where
  "ClientListSerializer s c =
     (case string_related_user s (c_created_by c) of
        Inl e \<Rightarrow> Inl e
      | Inr cb \<Rightarrow>
          Inr (JObj [(''id'', JInt (int (cid c))),
                     (''client_name'', JStr (client_name c)),
                     (''created_at'', JInt (int (c_created_at c))),
                     (''created_by'', cb)]))"

text \<open>\<open>ClientCreateSerializer\<close>, fields \<open>['client_name']\<close>.\<close>

definition ClientCreateSerializer :: "client \<Rightarrow> (string \<times> json) list" where
  "ClientCreateSerializer c = [(''client_name'', JStr (client_name c))]"

text \<open>\<open>ProjectCreateSerializer\<close>, fields \<open>['project_name', 'users']\<close>, with \<open>users\<close>
  rendered as primary keys.\<close>

definition ProjectCreateSerializer :: "db \<Rightarrow> project \<Rightarrow> (string \<times> json) list" where
  "ProjectCreateSerializer s p =
     [(''project_name'', JStr (project_name p)),
      (''users'', JList (map (\<lambda>u. JInt (int (uid u))) (project_users_all s (pid p))))]"

subsection \<open>Serializers: validation\<close>

text \<open>The characters Python's \<open>str.strip()\<close> removes, among code points below 256.\<close>

definition is_space :: "char \<Rightarrow> bool" where
  "is_space c = ((of_char c :: nat) \<in> {9, 10, 11, 12, 13, 28, 29, 30, 31, 32, 133, 160})"

definition strip :: "string \<Rightarrow> string" where
  "strip t = rev (dropWhile is_space (rev (dropWhile is_space t)))"

text \<open>Python's \<open>str\<close> on an integer.\<close>

function str_nat :: "nat \<Rightarrow> string" where
  "str_nat n =
     (if n < 10 then [char_of (48 + n)] else str_nat (n div 10) @ [char_of (48 + n mod 10)])"
  by pat_completeness auto
termination
  by (relation "measure id") auto

definition str_int :: "int \<Rightarrow> string" where
  "str_int n = (if n < 0 then CHR ''-'' # str_nat (nat (- n)) else str_nat (nat n))"

text \<open>The outcome of validating one field: a value, a field left out of a partial update,
  or an error code (one code is kept per field).\<close>

datatype 'a validated = Valid 'a | Skipped | Invalid string

text \<open>The validators of a serializer \<open>CharField\<close> built from
  \<open>models.CharField(max_length=255)\<close>.\<close>

definition run_validators :: "string \<Rightarrow> string validated" where
  "run_validators t =
     (if 255 < length t then Invalid ''max_length''
      else if CHR 0x00 \<in> set t then Invalid ''null_characters_not_allowed''
      else Valid t)"

text \<open>\<open>CharField.run_validation\<close>: the field is required, not nullable, not blank, and
  trims whitespace; booleans and containers are not text. The argument is the value
  found under the field's name, \<open>None\<close> when the key is absent.\<close>

definition CharField :: "bool \<Rightarrow> json option \<Rightarrow> string validated" where
  "CharField partial v =
     (case v of
        None \<Rightarrow> if partial then Skipped else Invalid ''required''
      | Some JNull \<Rightarrow> Invalid ''null''
      | Some (JStr t) \<Rightarrow> if strip t = [] then Invalid ''blank'' else run_validators (strip t)
      | Some (JInt n) \<Rightarrow> run_validators (strip (str_int n))
      | Some (JBool b) \<Rightarrow> Invalid ''invalid''
      | Some (JList xs) \<Rightarrow> Invalid ''invalid''
      | Some (JObj kvs) \<Rightarrow> Invalid ''invalid'')"

text \<open>The body of a request must be a dict.\<close>

definition not_a_dict :: "json \<Rightarrow> exn" where
  "not_a_dict d =
     ValidationError [(''non_field_errors'', if d = JNull then ''null'' else ''invalid'')]"

text \<open>\<open>ClientCreateSerializer\<close> and \<open>ClientSerializer\<close> have one writable field,
  \<open>client_name\<close>: \<open>id\<close>, \<open>created_at\<close> and \<open>updated_at\<close> are not editable,
  \<open>created_by\<close> and \<open>projects\<close> are declared read-only. The validated data holds
  \<open>client_name\<close> or, in a partial update that leaves it out, nothing.\<close>

definition client_is_valid :: "bool \<Rightarrow> json \<Rightarrow> exn + string option" where
  "client_is_valid partial d =
     (case d of
        JObj kvs \<Rightarrow>
          (case CharField partial (dict_get kvs ''client_name'') of
             Valid t \<Rightarrow> Inr (Some t)
           | Skipped \<Rightarrow> Inr None
           | Invalid c \<Rightarrow> Inl (ValidationError [(''client_name'', c)]))
      | _ \<Rightarrow> Inl (not_a_dict d))"

text \<open>\<open>queryset.get(pk=n)\<close> on the users.\<close>

definition user_by_pk :: "db \<Rightarrow> int \<Rightarrow> string + user" where
  "user_by_pk s n =
     (if n < 0 then Inl ''does_not_exist''
      else case get_user s (nat n) of None \<Rightarrow> Inl ''does_not_exist'' | Some u \<Rightarrow> Inr u)"

text \<open>\<open>PrimaryKeyRelatedField(queryset=User.objects.all()).to_internal_value\<close>. A key
  given as text is read by Python's \<open>int\<close>, here the parameter \<open>py_int\<close> (\<open>None\<close> for a
  text that is not a number).\<close>

definition pk_to_internal :: "(string \<Rightarrow> int option) \<Rightarrow> db \<Rightarrow> json \<Rightarrow> string + user" where
  "pk_to_internal py_int s j =
     (case j of
        JNull \<Rightarrow> Inl ''does_not_exist''
      | JBool b \<Rightarrow> Inl ''incorrect_type''
      | JInt n \<Rightarrow> user_by_pk s n
      | JStr t \<Rightarrow> (case py_int t of None \<Rightarrow> Inl ''incorrect_type'' | Some n \<Rightarrow> user_by_pk s n)
      | JList xs \<Rightarrow> Inl ''incorrect_type''
      | JObj kvs \<Rightarrow> Inl ''incorrect_type'')"

text \<open>The items of the list are resolved in order; the first failure ends it.\<close>

fun pks_to_internal :: "(string \<Rightarrow> int option) \<Rightarrow> db \<Rightarrow> json list \<Rightarrow> string + user list" where
  "pks_to_internal py_int s [] = Inr []"
| "pks_to_internal py_int s (j # js) =
     (case pk_to_internal py_int s j of
        Inl c \<Rightarrow> Inl c
      | Inr u \<Rightarrow>
          (case pks_to_internal py_int s js of Inl c \<Rightarrow> Inl c | Inr us \<Rightarrow> Inr (u # us)))"

definition many_related :: "(string \<Rightarrow> int option) \<Rightarrow> db \<Rightarrow> json list \<Rightarrow> user list validated" where
  "many_related py_int s js =
     (case pks_to_internal py_int s js of Inl c \<Rightarrow> Invalid c | Inr us \<Rightarrow> Valid us)"

text \<open>The field \<open>users\<close> of \<open>ProjectCreateSerializer\<close>: required, not nullable, any
  iterable that is not text (a dict iterates over its keys), possibly empty.\<close>

definition users_field :: "(string \<Rightarrow> int option) \<Rightarrow> db \<Rightarrow> json option \<Rightarrow> user list validated" where
  "users_field py_int s v =
     (case v of
        None \<Rightarrow> Invalid ''required''
      | Some JNull \<Rightarrow> Invalid ''null''
      | Some (JList js) \<Rightarrow> many_related py_int s js
      | Some (JObj kvs) \<Rightarrow> many_related py_int s (map JStr (dict_keys kvs))
      | Some (JStr t) \<Rightarrow> Invalid ''not_a_list''
      | Some (JInt n) \<Rightarrow> Invalid ''not_a_list''
      | Some (JBool b) \<Rightarrow> Invalid ''not_a_list'')"

definition field_errors :: "string \<Rightarrow> 'a validated \<Rightarrow> (string \<times> string) list" where
  "field_errors name r = (case r of Invalid c \<Rightarrow> [(name, c)] | _ \<Rightarrow> [])"

text \<open>\<open>ProjectCreateSerializer.is_valid\<close>: every field is run and the errors are raised
  together.\<close>

definition project_is_valid ::
  "(string \<Rightarrow> int option) \<Rightarrow> db \<Rightarrow> json \<Rightarrow> exn + string \<times> user list" where
  "project_is_valid py_int s d =
     (case d of
        JObj kvs \<Rightarrow>
          (case (CharField False (dict_get kvs ''project_name''),
                 users_field py_int s (dict_get kvs ''users'')) of
             (Valid t, Valid us) \<Rightarrow> Inr (t, us)
           | (r1, r2) \<Rightarrow>
               Inl (ValidationError (field_errors ''project_name'' r1 @ field_errors ''users'' r2)))
      | _ \<Rightarrow> Inl (not_a_dict d))"

subsection \<open>Requests and permissions\<close>

datatype http_method = GET | POST | PUT | PATCH | DELETE

text \<open>\<open>user\<close> is \<open>request.user\<close> after authentication (\<open>None\<close> for an anonymous
  caller), \<open>body\<close> is \<open>request.data\<close>.\<close>

record request =
  req_method :: http_method
  user :: "user option"
  body :: json

datatype permission = IsAuthenticated | AllowAny

fun has_permission :: "permission \<Rightarrow> request \<Rightarrow> bool" where
  "has_permission IsAuthenticated req = (user req \<noteq> None)"
| "has_permission AllowAny req = True"

text \<open>\<open>check_permissions\<close> runs before the handler of the method is looked up.\<close>

definition check_permissions :: "permission list \<Rightarrow> request \<Rightarrow> exn option" where
  "check_permissions perms req =
     (if list_all (\<lambda>p. has_permission p req) perms then None else Some NotAuthenticated)"

definition ok :: "nat \<Rightarrow> json \<Rightarrow> exn + response" where
  "ok code j = Inr \<lparr>status = code, data = Some j\<rparr>"

subsection \<open>Saving and deleting rows\<close>

text \<open>\<open>Client.objects.create\<close>: \<open>auto_now_add\<close> and \<open>auto_now\<close> both read the clock.\<close>

definition create_client :: "timestamp \<Rightarrow> db \<Rightarrow> string \<Rightarrow> nat \<Rightarrow> client \<times> db" where
  "create_client now s name creator =
     (let c = \<lparr>cid = next_client_id s, client_name = name, c_created_at = now,
                c_created_by = Some creator, c_updated_at = now\<rparr>
      in (c, s\<lparr>clients := clients s @ [c], next_client_id := Suc (next_client_id s)\<rparr>))"

text \<open>\<open>instance.save()\<close> on an existing client: the row with the instance's key is
  overwritten, and \<open>auto_now\<close> refreshes \<open>updated_at\<close>.\<close>

definition save_client :: "timestamp \<Rightarrow> db \<Rightarrow> client \<Rightarrow> client \<times> db" where
  "save_client now s c =
     (let c' = c\<lparr>c_updated_at := now\<rparr>
      in (c', s\<lparr>clients := map (\<lambda>x. if cid x = cid c then c' else x) (clients s)\<rparr>))"

text \<open>\<open>instance.delete()\<close> on a client: \<open>on_delete=models.CASCADE\<close> removes its
  projects, and with them their rows of \<open>project_users\<close>.\<close>

definition delete_client :: "db \<Rightarrow> client \<Rightarrow> db" where
  "delete_client s c =
     s\<lparr>clients := filter (\<lambda>x. cid x \<noteq> cid c) (clients s),
       projects := filter (\<lambda>p. p_client p \<noteq> cid c) (projects s),
       project_users :=
         filter (\<lambda>(p, u). p \<notin> set (map pid (client_projects s (cid c)))) (project_users s)\<rparr>"

text \<open>\<open>Project.objects.create\<close> followed by \<open>project.users.set(users)\<close>, which collects
  the ids of the users in a Python set and inserts one row of \<open>project_users\<close> for each
  id as the set yields them. The order in which a set yields its elements is left to the
  Python implementation: it is the parameter \<open>py_set\<close>, from the ids given to the same
  ids, once each, in that order.\<close>

definition create_project ::
  "(nat list \<Rightarrow> nat list) \<Rightarrow> timestamp \<Rightarrow> db \<Rightarrow> string \<Rightarrow> user list \<Rightarrow> client \<Rightarrow> nat
     \<Rightarrow> project \<times> db" where
  "create_project py_set now s name us c creator =
     (let p = \<lparr>pid = next_project_id s, project_name = name, p_client = cid c,
                p_created_at = now, p_created_by = Some creator\<rparr>
      in (p, s\<lparr>projects := projects s @ [p],
                project_users :=
                  project_users s @ map (\<lambda>i. (pid p, i)) (py_set (map uid us)),
                next_project_id := Suc (next_project_id s)\<rparr>))"

text \<open>Deleting a user, which the admin site offers: \<open>on_delete=models.SET_NULL\<close> nulls
  the \<open>created_by\<close> of the clients and projects the user created, and the user's rows of
  \<open>project_users\<close> go.\<close>

definition delete_user :: "db \<Rightarrow> nat \<Rightarrow> db" where
  "delete_user s i =
     s\<lparr>users := filter (\<lambda>u. uid u \<noteq> i) (users s),
       clients :=
         map (\<lambda>c. if c_created_by c = Some i then c\<lparr>c_created_by := None\<rparr> else c) (clients s),
       projects :=
         map (\<lambda>p. if p_created_by p = Some i then p\<lparr>p_created_by := None\<rparr> else p) (projects s),
       project_users := filter (\<lambda>(p, u). u \<noteq> i) (project_users s)\<rparr>"

subsection \<open>\<open>ClientListCreateView\<close>\<close>

datatype client_serializer_class = Use_ClientCreateSerializer | Use_ClientListSerializer

text \<open>
  \<^verbatim>\<open>
  def get_serializer_class(self):
      if self.request.method == 'POST':
          return ClientCreateSerializer
      return ClientListSerializer

  def get_permissions(self):
      if self.request.method == 'POST':
          return [IsAuthenticated()]
      return [AllowAny()]
  \<close>
\<close>

definition ClientListCreateView_get_serializer_class :: "request \<Rightarrow> client_serializer_class" where
  "ClientListCreateView_get_serializer_class req =
     (if req_method req = POST then Use_ClientCreateSerializer else Use_ClientListSerializer)"

definition ClientListCreateView_get_permissions :: "request \<Rightarrow> permission list" where
  "ClientListCreateView_get_permissions req =
     (if req_method req = POST then [IsAuthenticated] else [AllowAny])"

definition ClientListCreateView_serializer_data ::
  "client_serializer_class \<Rightarrow> db \<Rightarrow> client \<Rightarrow> exn + json" where
  "ClientListCreateView_serializer_data cls s c =
     (case cls of
        Use_ClientCreateSerializer \<Rightarrow> Inr (JObj (ClientCreateSerializer c))
      | Use_ClientListSerializer \<Rightarrow> ClientListSerializer s c)"

text \<open>\<open>perform_create\<close>: \<open>serializer.save(created_by=self.request.user)\<close>. A name
  absent from the validated data takes the column's default, the empty string.\<close>

definition ClientListCreateView_perform_create ::
  "timestamp \<Rightarrow> db \<Rightarrow> request \<Rightarrow> string option \<Rightarrow> (exn + client) \<times> db" where
  "ClientListCreateView_perform_create now s req vd =
     (case user req of
        None \<Rightarrow> (Inl ValueError, s)
      | Some u \<Rightarrow>
          (let (c, s') = create_client now s (case vd of None \<Rightarrow> [] | Some t \<Rightarrow> t) (uid u)
           in (Inr c, s')))"

text \<open>The inherited \<open>create\<close>: validate, \<open>perform_create\<close>, answer 201 with the data of
  the serializer that validated.\<close>

definition ClientListCreateView_create ::
  "timestamp \<Rightarrow> db \<Rightarrow> request \<Rightarrow> (exn + response) \<times> db" where
  "ClientListCreateView_create now s req =
     (case client_is_valid False (body req) of
        Inl e \<Rightarrow> (Inl e, s)
      | Inr vd \<Rightarrow>
          (case ClientListCreateView_perform_create now s req vd of
             (Inl e, s') \<Rightarrow> (Inl e, s')
           | (Inr c, s') \<Rightarrow>
               (case ClientListCreateView_serializer_data
                       (ClientListCreateView_get_serializer_class req) s' c of
                  Inl e \<Rightarrow> (Inl e, s')
                | Inr j \<Rightarrow> (ok 201 j, s'))))"

text \<open>The inherited \<open>list\<close> over \<open>Client.objects.all()\<close>.\<close>

definition ClientListCreateView_list :: "db \<Rightarrow> request \<Rightarrow> (exn + response) \<times> db" where
  "ClientListCreateView_list s req =
     (case map_exn (ClientListCreateView_serializer_data
                      (ClientListCreateView_get_serializer_class req) s) (clients s) of
        Inl e \<Rightarrow> (Inl e, s)
      | Inr js \<Rightarrow> (ok 200 (JList js), s))"

definition ClientListCreateView :: "timestamp \<Rightarrow> db \<Rightarrow> request \<Rightarrow> (exn + response) \<times> db" where
  "ClientListCreateView now s req =
     (case check_permissions (ClientListCreateView_get_permissions req) req of
        Some e \<Rightarrow> (Inl e, s)
      | None \<Rightarrow>
          (case req_method req of
             GET \<Rightarrow> ClientListCreateView_list s req
           | POST \<Rightarrow> ClientListCreateView_create now s req
           | _ \<Rightarrow> (Inl MethodNotAllowed, s)))"

subsection \<open>\<open>ClientDetailView\<close>\<close>

text \<open>
  \<^verbatim>\<open>
  def get_permissions(self):
      if self.request.method in ['PUT', 'PATCH', 'DELETE']:
          return [IsAuthenticated()]
      return [AllowAny()]
  \<close>
\<close>

definition ClientDetailView_get_permissions :: "request \<Rightarrow> permission list" where
  "ClientDetailView_get_permissions req =
     (if req_method req \<in> {PUT, PATCH, DELETE} then [IsAuthenticated] else [AllowAny])"

text \<open>\<open>get_object\<close>: \<open>get_object_or_404\<close> on \<open>Client.objects.all()\<close>.\<close>

definition ClientDetailView_get_object :: "db \<Rightarrow> nat \<Rightarrow> exn + client" where
  "ClientDetailView_get_object s pk =
     (case get_client s pk of None \<Rightarrow> Inl Http404 | Some c \<Rightarrow> Inr c)"

definition ClientDetailView_retrieve :: "db \<Rightarrow> nat \<Rightarrow> (exn + response) \<times> db" where
  "ClientDetailView_retrieve s pk =
     (case ClientDetailView_get_object s pk of
        Inl e \<Rightarrow> (Inl e, s)
      | Inr c \<Rightarrow>
          (case ClientSerializer s c of Inl e \<Rightarrow> (Inl e, s) | Inr j \<Rightarrow> (ok 200 j, s)))"

text \<open>\<open>perform_update\<close>: \<open>serializer.save()\<close> sets the validated attributes on the
  instance and saves it.\<close>

definition ClientDetailView_perform_update ::
  "timestamp \<Rightarrow> db \<Rightarrow> client \<Rightarrow> string option \<Rightarrow> client \<times> db" where
  "ClientDetailView_perform_update now s c vd =
     save_client now s (case vd of None \<Rightarrow> c | Some t \<Rightarrow> c\<lparr>client_name := t\<rparr>)"

text \<open>The inherited \<open>update\<close> (PUT) and \<open>partial_update\<close> (PATCH, \<open>partial=True\<close>).\<close>

definition ClientDetailView_update ::
  "timestamp \<Rightarrow> db \<Rightarrow> request \<Rightarrow> nat \<Rightarrow> bool \<Rightarrow> (exn + response) \<times> db" where
  "ClientDetailView_update now s req pk partial =
     (case ClientDetailView_get_object s pk of
        Inl e \<Rightarrow> (Inl e, s)
      | Inr c \<Rightarrow>
          (case client_is_valid partial (body req) of
             Inl e \<Rightarrow> (Inl e, s)
           | Inr vd \<Rightarrow>
               (let (c', s') = ClientDetailView_perform_update now s c vd
                in case ClientSerializer s' c' of
                     Inl e \<Rightarrow> (Inl e, s')
                   | Inr j \<Rightarrow> (ok 200 j, s'))))"

text \<open>
  \<^verbatim>\<open>
  def destroy(self, request, *args, **kwargs):
      instance = self.get_object()
      self.perform_destroy(instance)
      return Response(status=status.HTTP_204_NO_CONTENT)
  \<close>
\<close>

definition ClientDetailView_destroy :: "db \<Rightarrow> nat \<Rightarrow> (exn + response) \<times> db" where
  "ClientDetailView_destroy s pk =
     (case ClientDetailView_get_object s pk of
        Inl e \<Rightarrow> (Inl e, s)
      | Inr instance \<Rightarrow> (Inr \<lparr>status = 204, data = None\<rparr>, delete_client s instance))"

definition ClientDetailView ::
  "timestamp \<Rightarrow> db \<Rightarrow> nat \<Rightarrow> request \<Rightarrow> (exn + response) \<times> db" where
  "ClientDetailView now s pk req =
     (case check_permissions (ClientDetailView_get_permissions req) req of
        Some e \<Rightarrow> (Inl e, s)
      | None \<Rightarrow>
          (case req_method req of
             GET \<Rightarrow> ClientDetailView_retrieve s pk
           | PUT \<Rightarrow> ClientDetailView_update now s req pk False
           | PATCH \<Rightarrow> ClientDetailView_update now s req pk True
           | DELETE \<Rightarrow> ClientDetailView_destroy s pk
           | POST \<Rightarrow> (Inl MethodNotAllowed, s)))"

subsection \<open>\<open>ProjectCreateView\<close>\<close>

text \<open>
  \<^verbatim>\<open>
  def perform_create(self, serializer):
      client = Client.objects.get(pk=self.kwargs['pk'])
      project = serializer.save(client=client, created_by=self.request.user)
  \<close>
  \<open>Client.objects.get\<close> raises \<open>Client.DoesNotExist\<close> when no row has the key.
\<close>

definition ProjectCreateView_perform_create ::
  "(nat list \<Rightarrow> nat list) \<Rightarrow> timestamp \<Rightarrow> db \<Rightarrow> request \<Rightarrow> nat \<Rightarrow> string \<times> user list
     \<Rightarrow> (exn + project) \<times> db" where
  "ProjectCreateView_perform_create py_set now s req pk vd =
     (case get_client s pk of
        None \<Rightarrow> (Inl DoesNotExist, s)
      | Some c \<Rightarrow>
          (case user req of
             None \<Rightarrow> (Inl ValueError, s)
           | Some u \<Rightarrow>
               (let (p, s') = create_project py_set now s (fst vd) (snd vd) c (uid u)
                in (Inr p, s'))))"

text \<open>\<open>super().create\<close>: validate with \<open>ProjectCreateSerializer\<close>, \<open>perform_create\<close>,
  answer 201 with the data of that serializer.\<close>

definition ProjectCreateView_super_create ::
  "(string \<Rightarrow> int option) \<Rightarrow> (nat list \<Rightarrow> nat list) \<Rightarrow> timestamp \<Rightarrow> db \<Rightarrow> request \<Rightarrow> nat
     \<Rightarrow> (exn + (string \<times> json) list) \<times> db" where
  "ProjectCreateView_super_create py_int py_set now s req pk =
     (case project_is_valid py_int s (body req) of
        Inl e \<Rightarrow> (Inl e, s)
      | Inr vd \<Rightarrow>
          (case ProjectCreateView_perform_create py_set now s req pk vd of
             (Inl e, s') \<Rightarrow> (Inl e, s')
           | (Inr p, s') \<Rightarrow> (Inr (ProjectCreateSerializer s' p), s')))"

text \<open>\<open>Project.objects.get(pk=j)\<close> for a value \<open>j\<close> read from response data. The key is
  made a number as Python's \<open>int\<close> does: \<open>True\<close> is 1 and \<open>False\<close> is 0, a text is
  read by \<open>py_int\<close>, a list or a dict raises \<open>TypeError\<close>; \<open>None\<close> matches no row.\<close>

definition Project_objects_get :: "(string \<Rightarrow> int option) \<Rightarrow> db \<Rightarrow> json \<Rightarrow> exn + project" where
  "Project_objects_get py_int s j =
     (let by_pk = (\<lambda>n. if n < 0 then Inl DoesNotExist
                        else case get_project s (nat n) of
                               None \<Rightarrow> Inl DoesNotExist
                             | Some p \<Rightarrow> Inr p)
      in case j of
           JNull \<Rightarrow> Inl DoesNotExist
         | JBool b \<Rightarrow> by_pk (if b then 1 else 0)
         | JInt n \<Rightarrow> by_pk n
         | JStr t \<Rightarrow> (case py_int t of None \<Rightarrow> Inl ValueError | Some n \<Rightarrow> by_pk n)
         | JList xs \<Rightarrow> Inl TypeError
         | JObj kvs \<Rightarrow> Inl TypeError)"

text \<open>
  \<^verbatim>\<open>
  def create(self, request, *args, **kwargs):
      response = super().create(request, *args, **kwargs)
      project = Project.objects.get(pk=response.data['id'])
      serializer = ProjectSerializer(project)
      return Response(serializer.data, status=status.HTTP_201_CREATED)
  \<close>
  Subscripting a dict with a key it does not hold raises \<open>KeyError\<close>.
\<close>

definition ProjectCreateView_create ::
  "(string \<Rightarrow> int option) \<Rightarrow> (nat list \<Rightarrow> nat list) \<Rightarrow> timestamp \<Rightarrow> db \<Rightarrow> request \<Rightarrow> nat
     \<Rightarrow> (exn + response) \<times> db" where
  "ProjectCreateView_create py_int py_set now s req pk =
     (case ProjectCreateView_super_create py_int py_set now s req pk of
        (Inl e, s') \<Rightarrow> (Inl e, s')
      | (Inr response_data, s') \<Rightarrow>
          (case dict_get response_data ''id'' of
             None \<Rightarrow> (Inl (KeyError ''id''), s')
           | Some j \<Rightarrow>
               (case Project_objects_get py_int s' j of
                  Inl e \<Rightarrow> (Inl e, s')
                | Inr project \<Rightarrow>
                    (case ProjectSerializer_to_representation s' project of
                       Inl e \<Rightarrow> (Inl e, s')
                     | Inr rep \<Rightarrow> (ok 201 rep, s')))))"

text \<open>\<open>permission_classes = [IsAuthenticated]\<close>; a \<open>CreateAPIView\<close> handles POST.\<close>

definition ProjectCreateView ::
  "(string \<Rightarrow> int option) \<Rightarrow> (nat list \<Rightarrow> nat list) \<Rightarrow> timestamp \<Rightarrow> db \<Rightarrow> nat \<Rightarrow> request
     \<Rightarrow> (exn + response) \<times> db" where
  "ProjectCreateView py_int py_set now s pk req =
     (case check_permissions [IsAuthenticated] req of
        Some e \<Rightarrow> (Inl e, s)
      | None \<Rightarrow>
          (case req_method req of
             POST \<Rightarrow> ProjectCreateView_create py_int py_set now s req pk
           | _ \<Rightarrow> (Inl MethodNotAllowed, s)))"

subsection \<open>\<open>UserProjectsView\<close>\<close>

text \<open>
  \<^verbatim>\<open>
  def get_queryset(self):
      return self.request.user.assigned_projects.all()
  \<close>
\<close>

definition UserProjectsView_get_queryset :: "db \<Rightarrow> request \<Rightarrow> exn + project list" where
  "UserProjectsView_get_queryset s req =
     (case user req of
        None \<Rightarrow> Inl AttributeError
      | Some u \<Rightarrow> Inr (assigned_projects s (uid u)))"

text \<open>The inherited \<open>list\<close>, with \<open>serializer_class = ProjectSerializer\<close>.\<close>

definition UserProjectsView_list :: "db \<Rightarrow> request \<Rightarrow> (exn + response) \<times> db" where
  "UserProjectsView_list s req =
     (case UserProjectsView_get_queryset s req of
        Inl e \<Rightarrow> (Inl e, s)
      | Inr ps \<Rightarrow>
          (case map_exn (ProjectSerializer_to_representation s) ps of
             Inl e \<Rightarrow> (Inl e, s)
           | Inr js \<Rightarrow> (ok 200 (JList js), s)))"

text \<open>\<open>permission_classes = [IsAuthenticated]\<close>; a \<open>ListAPIView\<close> handles GET.\<close>

definition UserProjectsView :: "db \<Rightarrow> request \<Rightarrow> (exn + response) \<times> db" where
  "UserProjectsView s req =
     (case check_permissions [IsAuthenticated] req of
        Some e \<Rightarrow> (Inl e, s)
      | None \<Rightarrow>
          (case req_method req of
             GET \<Rightarrow> UserProjectsView_list s req
           | _ \<Rightarrow> (Inl MethodNotAllowed, s)))"

subsection \<open>URLs\<close>

text \<open>The four API routes of \<open>urlpatterns\<close>, by name; \<open><int:pk>\<close> is a natural number.\<close>

datatype route =
    client_list_create
  | client_detail nat
  | project_create nat
  | user_projects

definition urlpatterns ::
  "(string \<Rightarrow> int option) \<Rightarrow> (nat list \<Rightarrow> nat list) \<Rightarrow> timestamp \<Rightarrow> db \<Rightarrow> route \<Rightarrow> request
     \<Rightarrow> (exn + response) \<times> db" where
  "urlpatterns py_int py_set now s r req =
     (case r of
        client_list_create \<Rightarrow> ClientListCreateView now s req
      | client_detail pk \<Rightarrow> ClientDetailView now s pk req
      | project_create pk \<Rightarrow> ProjectCreateView py_int py_set now s pk req
      | user_projects \<Rightarrow> UserProjectsView s req)"

subsection \<open>Consistent databases\<close>

text \<open>What the schema enforces: primary keys are unique and below their counters, foreign
  keys point at rows, and \<open>project_users\<close> holds no pair twice.\<close>

definition consistent :: "db \<Rightarrow> bool" where
  "consistent s \<longleftrightarrow>
     distinct (map uid (users s)) \<and>
     distinct (map cid (clients s)) \<and>
     distinct (map pid (projects s)) \<and>
     distinct (project_users s) \<and>
     list_all (\<lambda>c. cid c < next_client_id s) (clients s) \<and>
     list_all (\<lambda>p. pid p < next_project_id s) (projects s) \<and>
     list_all (\<lambda>c. case c_created_by c of None \<Rightarrow> True
                    | Some i \<Rightarrow> i \<in> set (map uid (users s))) (clients s) \<and>
     list_all (\<lambda>p. p_client p \<in> set (map cid (clients s)) \<and>
                    (case p_created_by p of None \<Rightarrow> True
                     | Some i \<Rightarrow> i \<in> set (map uid (users s)))) (projects s) \<and>
     list_all (\<lambda>(p, u). p \<in> set (map pid (projects s)) \<and> u \<in> set (map uid (users s)))
       (project_users s)"

text \<open>An authenticated request carries a user of the database.\<close>

definition authenticated :: "db \<Rightarrow> request \<Rightarrow> bool" where
  "authenticated s req = (case user req of None \<Rightarrow> False | Some u \<Rightarrow> u \<in> set (users s))"

subsection \<open>The scenario of the specification\<close>

text \<open>Three users; the client ``Acme'' created by alice; the project ``Website'' under it,
  assigned to bob and carol; then a second project, ``App'', to which bob was assigned
  before he was assigned to ``Website''. \<open>no_int\<close> reads no text as a number, and
  \<open>ascending\<close> yields the ids of a set in ascending order.\<close>

definition alice :: user where "alice = \<lparr>uid = 1, username = ''alice''\<rparr>"
definition bob :: user where "bob = \<lparr>uid = 2, username = ''bob''\<rparr>"
definition carol :: user where "carol = \<lparr>uid = 3, username = ''carol''\<rparr>"

definition acme :: client where
  "acme = \<lparr>cid = 1, client_name = ''Acme'', c_created_at = 5, c_created_by = Some 1,
            c_updated_at = 5\<rparr>"

definition website :: project where
  "website = \<lparr>pid = 1, project_name = ''Website'', p_client = 1, p_created_at = 7,
               p_created_by = Some 1\<rparr>"

definition empty_db :: db where
  "empty_db = \<lparr>users = [alice, bob, carol], clients = [], projects = [], project_users = [],
                next_client_id = 1, next_project_id = 1\<rparr>"

definition acme_db :: db where
  "acme_db = \<lparr>users = [alice, bob, carol], clients = [acme], projects = [],
               project_users = [], next_client_id = 2, next_project_id = 1\<rparr>"

definition website_db :: db where
  "website_db = \<lparr>users = [alice, bob, carol], clients = [acme], projects = [website],
                  project_users = [(1, 2), (1, 3)], next_client_id = 2, next_project_id = 2\<rparr>"

definition app :: project where
  "app = \<lparr>pid = 2, project_name = ''App'', p_client = 1, p_created_at = 8,
           p_created_by = None\<rparr>"

definition app_db :: db where
  "app_db = \<lparr>users = [alice, bob, carol], clients = [acme], projects = [website, app],
              project_users = [(2, 2), (1, 2), (1, 3)], next_client_id = 2,
              next_project_id = 3\<rparr>"

definition no_int :: "string \<Rightarrow> int option" where
  "no_int t = None"

definition ascending :: "nat list \<Rightarrow> nat list" where
  "ascending xs = sort (remdups xs)"

section \<open>Properties\<close>

subsection \<open>Lists, lookups and consistent databases\<close>

lemmas scenario_defs =
  alice_def bob_def carol_def acme_def website_def empty_db_def acme_db_def website_db_def
  app_def app_db_def

lemmas view_defs =
  urlpatterns_def check_permissions_def ok_def http_status_def

lemma find_append: "find P (xs @ ys) = (case find P xs of None \<Rightarrow> find P ys | Some x \<Rightarrow> Some x)"
  by (induction xs) auto

lemma find_None_all: "find P xs = None \<longleftrightarrow> (\<forall>x\<in>set xs. \<not> P x)"
  by (induction xs) auto

lemma find_SomeD: "find P xs = Some x \<Longrightarrow> x \<in> set xs \<and> P x"
  by (induction xs) (auto split: if_splits)

lemma find_distinct_key:
  "distinct (map f xs) \<Longrightarrow> x \<in> set xs \<Longrightarrow> find (\<lambda>y. f y = f x) xs = Some x"
  by (induction xs) (auto simp: rev_image_eqI)

lemma map_exn_Cons_Inr:
  "map_exn f (x # xs) = Inr ys \<longleftrightarrow>
     (\<exists>y ys'. ys = y # ys' \<and> f x = Inr y \<and> map_exn f xs = Inr ys')"
  by (auto split: sum.splits)

lemma map_exn_all2:
  "map_exn f xs = Inr ys \<longleftrightarrow> list_all2 (\<lambda>x y. f x = Inr y) xs ys"
proof (induction xs arbitrary: ys)
  case Nil
  show ?case by auto
next
  case (Cons x xs)
  show ?case
    unfolding map_exn_Cons_Inr list_all2_Cons1 using Cons.IH by blast
qed

lemma map_exn_total:
  "(\<forall>x\<in>set xs. \<exists>y. f x = Inr y) \<Longrightarrow> \<exists>ys. map_exn f xs = Inr ys"
  by (induction xs) (auto split: sum.splits)

lemma wf_get_user:
  "consistent s \<Longrightarrow> i \<in> set (map uid (users s)) \<Longrightarrow> \<exists>u. get_user s i = Some u \<and> u \<in> set (users s) \<and> uid u = i"
  unfolding get_user_def
  by (cases "find (\<lambda>u. uid u = i) (users s)") (auto simp: find_None_all dest: find_SomeD)

lemma wf_get_client:
  "i \<in> set (map cid (clients s)) \<Longrightarrow> \<exists>c. get_client s i = Some c \<and> c \<in> set (clients s) \<and> cid c = i"
  unfolding get_client_def
  by (cases "find (\<lambda>c. cid c = i) (clients s)") (auto simp: find_None_all dest: find_SomeD)

lemma wf_project_refs:
  assumes "consistent s" "p \<in> set (projects s)"
  shows "p_client p \<in> set (map cid (clients s))"
    and "\<And>i. p_created_by p = Some i \<Longrightarrow> i \<in> set (map uid (users s))"
  using assms unfolding consistent_def list_all_iff by (auto split: option.splits)

lemma dict_get_Cons:
  "dict_get ((k, v) # kvs) k' = (case dict_get kvs k' of Some w \<Rightarrow> Some w | None \<Rightarrow> if k = k' then Some v else None)"
  by (auto simp: dict_get_def map_add_def split: option.splits)

lemma list_all2_right:
  "list_all2 P xs ys \<Longrightarrow> y \<in> set ys \<Longrightarrow> \<exists>x\<in>set xs. P x y"
  by (induction rule: list_all2_induct) auto

lemma list_all2_left:
  "list_all2 P xs ys \<Longrightarrow> x \<in> set xs \<Longrightarrow> \<exists>y\<in>set ys. P x y"
  by (induction rule: list_all2_induct) auto

subsection \<open>Rendering a project\<close>

lemma ProjectSerializer_wf:
  assumes "consistent s" and "p \<in> set (projects s)"
  obtains c cb where
    "get_client s (p_client p) = Some c"
    "case p_created_by p of
       None \<Rightarrow> cb = JNull
     | Some i \<Rightarrow> \<exists>u\<in>set (users s). uid u = i \<and> cb = JStr (username u)"
    "ProjectSerializer_to_representation s p =
       Inr (JObj [(''id'', JInt (int (pid p))),
                  (''project_name'', JStr (project_name p)),
                  (''client'', JStr (client_name c)),
                  (''users'', JList (map UserSerializer (project_users_all s (pid p)))),
                  (''created_at'', JInt (int (p_created_at p))),
                  (''created_by'', cb)])"
proof -
  obtain c where c: "get_client s (p_client p) = Some c"
    using wf_get_client wf_project_refs(1)[OF assms] by blast
  show ?thesis
  proof (cases "p_created_by p")
    case None
    show ?thesis
      by (rule that[of c JNull])
        (simp_all add: c None ProjectSerializer_to_representation_def
          ProjectSerializer_super_def fetch_created_by_def pk_repr_def)
  next
    case (Some i)
    then obtain u where u: "get_user s i = Some u" "u \<in> set (users s)" "uid u = i"
      using wf_get_user[OF assms(1)] wf_project_refs(2)[OF assms] by blast
    show ?thesis
      by (rule that[of c "JStr (username u)"])
        (use u in \<open>auto simp: c Some ProjectSerializer_to_representation_def
          ProjectSerializer_super_def fetch_created_by_def pk_repr_def\<close>)
  qed
qed

lemma ProjectSerializer_id:
  assumes "consistent s" and "p \<in> set (projects s)"
  shows "\<exists>rep. ProjectSerializer_to_representation s p = Inr (JObj rep) \<and>
           dict_get rep ''id'' = Some (JInt (int (pid p)))"
proof -
  from assms obtain c cb where
    "get_client s (p_client p) = Some c"
    "case p_created_by p of
       None \<Rightarrow> cb = JNull
     | Some i \<Rightarrow> \<exists>u\<in>set (users s). uid u = i \<and> cb = JStr (username u)"
    "ProjectSerializer_to_representation s p =
       Inr (JObj [(''id'', JInt (int (pid p))),
                  (''project_name'', JStr (project_name p)),
                  (''client'', JStr (client_name c)),
                  (''users'', JList (map UserSerializer (project_users_all s (pid p)))),
                  (''created_at'', JInt (int (p_created_at p))),
                  (''created_by'', cb)])"
    by (rule ProjectSerializer_wf)
  then show ?thesis by (simp add: dict_get_def)
qed

lemma projects_render:
  assumes "consistent s" and "set ps \<subseteq> set (projects s)"
  shows "\<exists>js. map_exn (ProjectSerializer_to_representation s) ps = Inr js"
proof (rule map_exn_total, rule ballI)
  fix p assume "p \<in> set ps"
  then have "p \<in> set (projects s)" using assms(2) by blast
  from ProjectSerializer_id[OF assms(1) this]
  show "\<exists>y. ProjectSerializer_to_representation s p = Inr y" by blast
qed

text \<open>
  Claim C10. In a consistent database, rendering any project in the detail shape returns a
  representation with the six keys of the serializer, and never raises: when the project's
  \<open>created_by\<close> is null (its creator was deleted) the field \<open>created_by\<close> is rendered as
  null, and when it is set the field is the creator's username.
\<close>

theorem ProjectSerializer_total:
  assumes "consistent s" and "p \<in> set (projects s)"
  shows "\<exists>rep. ProjectSerializer_to_representation s p = Inr (JObj rep) \<and>
           map fst rep =
             [''id'', ''project_name'', ''client'', ''users'', ''created_at'', ''created_by''] \<and>
           (p_created_by p = None \<longrightarrow> dict_get rep ''created_by'' = Some JNull) \<and>
           (\<forall>i. p_created_by p = Some i \<longrightarrow>
              (\<exists>u\<in>set (users s). uid u = i \<and>
                 dict_get rep ''created_by'' = Some (JStr (username u))))"
proof -
  from assms obtain c cb where r:
    "get_client s (p_client p) = Some c"
    "case p_created_by p of None \<Rightarrow> cb = JNull
     | Some i \<Rightarrow> \<exists>u\<in>set (users s). uid u = i \<and> cb = JStr (username u)"
    "ProjectSerializer_to_representation s p =
       Inr (JObj [(''id'', JInt (int (pid p))),
                  (''project_name'', JStr (project_name p)),
                  (''client'', JStr (client_name c)),
                  (''users'', JList (map UserSerializer (project_users_all s (pid p)))),
                  (''created_at'', JInt (int (p_created_at p))),
                  (''created_by'', cb)])"
    by (rule ProjectSerializer_wf)
  show ?thesis
    using r by (auto simp: dict_get_def split: option.splits)
qed

theorem ProjectSerializer_total_witness:
  "\<exists>rep. ProjectSerializer_to_representation (delete_user website_db 1)
            (website\<lparr>p_created_by := None\<rparr>) = Inr (JObj rep) \<and>
         dict_get rep ''created_by'' = Some JNull"
proof -
  have w: "consistent (delete_user website_db 1)"
    by (simp add: consistent_def delete_user_def scenario_defs)
  have m: "website\<lparr>p_created_by := None\<rparr> \<in> set (projects (delete_user website_db 1))"
    by (simp add: delete_user_def scenario_defs)
  show ?thesis
    using ProjectSerializer_total[OF w m] by auto
qed

subsection \<open>The projects of the calling user\<close>

lemma filter_key_single:
  "distinct (map f xs) \<Longrightarrow> x \<in> set xs \<Longrightarrow> filter (\<lambda>y. f y = f x) xs = [x]"
proof (induction xs)
  case Nil
  then show ?case by simp
next
  case (Cons a xs)
  show ?case
  proof (cases "a = x")
    case True
    have "\<forall>y\<in>set xs. f y \<noteq> f x" using Cons.prems(1) True by (auto simp: image_iff)
    then have "filter (\<lambda>y. f y = f x) xs = []" by (simp add: filter_empty_conv)
    then show ?thesis using True by simp
  next
    case False
    then have "x \<in> set xs" using Cons.prems(2) by simp
    moreover have "f a \<noteq> f x" using Cons.prems(1) \<open>x \<in> set xs\<close> by (auto simp: image_iff)
    ultimately show ?thesis using Cons by simp
  qed
qed

lemma join_rows:
  assumes "distinct (map pid ps)" and "\<forall>row\<in>set rs. fst row \<in> pid ` set ps"
  shows "list_all2 (\<lambda>row q. q \<in> set ps \<and> pid q = fst row)
           (filter (\<lambda>row. snd row = u) rs)
           (concat (map (\<lambda>(p, v). if v = u then filter (\<lambda>q. pid q = p) ps else []) rs))"
  using assms(2)
proof (induction rs)
  case Nil
  then show ?case by simp
next
  case (Cons row rs)
  obtain p v where row: "row = (p, v)" by (cases row)
  from Cons.prems row obtain q where q: "q \<in> set ps" "pid q = p" by auto
  have "filter (\<lambda>y. pid y = p) ps = [q]"
    using filter_key_single[OF assms(1) q(1)] q(2) by simp
  then show ?case
    using Cons row q by simp
qed

lemma assigned_projects_rows:
  assumes "consistent s"
  shows "list_all2 (\<lambda>row q. q \<in> set (projects s) \<and> pid q = fst row)
           (filter (\<lambda>row. snd row = u) (project_users s)) (assigned_projects s u)"
proof -
  have "distinct (map pid (projects s))"
    using assms by (simp add: consistent_def)
  moreover have "\<forall>row\<in>set (project_users s). fst row \<in> pid ` set (projects s)"
    using assms unfolding consistent_def list_all_iff by auto
  ultimately show ?thesis
    unfolding assigned_projects_def by (rule join_rows)
qed

lemma list_all2_chain:
  "list_all2 P xs ys \<Longrightarrow> list_all2 Q ys zs \<Longrightarrow>
     list_all2 (\<lambda>x z. \<exists>y. P x y \<and> Q y z) xs zs"
proof (induction arbitrary: zs rule: list_all2_induct)
  case Nil
  then show ?case by simp
next
  case (Cons x xs y ys)
  then show ?case by (auto simp: list_all2_Cons1)
qed

text \<open>
  Claim C7. For an authenticated GET of \<open>/projects/\<close> on a consistent database the answer
  is 200, the database is unchanged, and the body is a sequence with one entry for each row
  of \<open>project_users\<close> that holds the caller, in the order of those rows. The entry of a row
  is the detail shape of the row's project: its \<open>id\<close>, its \<open>project_name\<close>, the name of
  its client, its users as \<open>{id, username}\<close> records (the users that \<open>project_users\<close>
  pairs with the project), its \<open>created_at\<close>, and as \<open>created_by\<close> the username of its
  creator, or null. Since no row occurs twice, a project is in the caller's list once if it
  is assigned to the caller, and not at all otherwise: a project assigned to U is in U's
  list and in the list of no user outside its assignment set.
\<close>

theorem UserProjectsView_exact:
  assumes "consistent s" and "user req = Some u" and "req_method req = GET"
  shows "\<exists>js. urlpatterns py_int py_set now s user_projects req = (ok 200 (JList js), s) \<and>
           list_all2
             (\<lambda>row j. \<exists>p c cb.
                p \<in> set (projects s) \<and> pid p = fst row \<and>
                c \<in> set (clients s) \<and> cid c = p_client p \<and>
                (case p_created_by p of
                   None \<Rightarrow> cb = JNull
                 | Some i \<Rightarrow> \<exists>v\<in>set (users s). uid v = i \<and> cb = JStr (username v)) \<and>
                j = JObj [(''id'', JInt (int (pid p))),
                          (''project_name'', JStr (project_name p)),
                          (''client'', JStr (client_name c)),
                          (''users'',
                           JList (map (\<lambda>v. JObj [(''id'', JInt (int (uid v))),
                                                   (''username'', JStr (username v))])
                                    (filter (\<lambda>v. (pid p, uid v) \<in> set (project_users s))
                                       (users s)))),
                          (''created_at'', JInt (int (p_created_at p))),
                          (''created_by'', cb)])
             (filter (\<lambda>row. snd row = uid u) (project_users s)) js \<and>
           (\<forall>p\<in>set (projects s).
              (\<exists>j\<in>set js. \<exists>kvs. j = JObj kvs \<and>
                  dict_get kvs ''id'' = Some (JInt (int (pid p)))) \<longleftrightarrow>
              (pid p, uid u) \<in> set (project_users s))"
proof -
  let ?rows = "filter (\<lambda>row. snd row = uid u) (project_users s)"
  let ?ps = "assigned_projects s (uid u)"
  let ?shape = "\<lambda>row j. \<exists>p c cb.
                p \<in> set (projects s) \<and> pid p = fst row \<and>
                c \<in> set (clients s) \<and> cid c = p_client p \<and>
                (case p_created_by p of
                   None \<Rightarrow> cb = JNull
                 | Some i \<Rightarrow> \<exists>v\<in>set (users s). uid v = i \<and> cb = JStr (username v)) \<and>
                j = JObj [(''id'', JInt (int (pid p))),
                          (''project_name'', JStr (project_name p)),
                          (''client'', JStr (client_name c)),
                          (''users'',
                           JList (map (\<lambda>v. JObj [(''id'', JInt (int (uid v))),
                                                   (''username'', JStr (username v))])
                                    (filter (\<lambda>v. (pid p, uid v) \<in> set (project_users s))
                                       (users s)))),
                          (''created_at'', JInt (int (p_created_at p))),
                          (''created_by'', cb)]"
  have rows: "list_all2 (\<lambda>row q. q \<in> set (projects s) \<and> pid q = fst row) ?rows ?ps"
    using assigned_projects_rows[OF assms(1)] .
  then have sub: "set ?ps \<subseteq> set (projects s)"
    using list_all2_right by fastforce
  obtain js where js: "map_exn (ProjectSerializer_to_representation s) ?ps = Inr js"
    using projects_render[OF assms(1) sub] by blast
  then have all2: "list_all2 (\<lambda>p j. ProjectSerializer_to_representation s p = Inr j) ?ps js"
    by (simp add: map_exn_all2)
  have res: "urlpatterns py_int py_set now s user_projects req = (ok 200 (JList js), s)"
    using assms(2,3) js
    by (simp add: view_defs UserProjectsView_def UserProjectsView_list_def
        UserProjectsView_get_queryset_def)
  have step: "?shape row j"
    if "\<exists>q. (q \<in> set (projects s) \<and> pid q = fst row) \<and>
             ProjectSerializer_to_representation s q = Inr j" for row j
  proof -
    from that obtain q where q: "q \<in> set (projects s)" "pid q = fst row"
      "ProjectSerializer_to_representation s q = Inr j" by blast
    from assms(1) q(1) obtain c cb where r:
      "get_client s (p_client q) = Some c"
      "case p_created_by q of
         None \<Rightarrow> cb = JNull
       | Some i \<Rightarrow> \<exists>u\<in>set (users s). uid u = i \<and> cb = JStr (username u)"
      "ProjectSerializer_to_representation s q =
         Inr (JObj [(''id'', JInt (int (pid q))),
                    (''project_name'', JStr (project_name q)),
                    (''client'', JStr (client_name c)),
                    (''users'', JList (map UserSerializer (project_users_all s (pid q)))),
                    (''created_at'', JInt (int (p_created_at q))),
                    (''created_by'', cb)])"
      by (rule ProjectSerializer_wf)
    have c: "c \<in> set (clients s)" "cid c = p_client q"
      using r(1) by (auto simp: get_client_def dest: find_SomeD)
    have j: "j = JObj [(''id'', JInt (int (pid q))),
                    (''project_name'', JStr (project_name q)),
                    (''client'', JStr (client_name c)),
                    (''users'',
                     JList (map (\<lambda>v. JObj [(''id'', JInt (int (uid v))),
                                             (''username'', JStr (username v))])
                              (filter (\<lambda>v. (pid q, uid v) \<in> set (project_users s))
                                 (users s)))),
                    (''created_at'', JInt (int (p_created_at q))),
                    (''created_by'', cb)]"
      using r(3) q(3) by (simp add: project_users_all_def UserSerializer_def)
    show ?thesis
      using q(1,2) c r(2) j by blast
  qed
  have shape: "list_all2 ?shape ?rows js"
    by (rule list_all2_mono[OF list_all2_chain[OF rows all2]]) (rule step)
  have iff: "(\<exists>j\<in>set js. \<exists>kvs. j = JObj kvs \<and>
                  dict_get kvs ''id'' = Some (JInt (int (pid p)))) \<longleftrightarrow>
             (pid p, uid u) \<in> set (project_users s)" if p: "p \<in> set (projects s)" for p
  proof
    assume "\<exists>j\<in>set js. \<exists>kvs. j = JObj kvs \<and> dict_get kvs ''id'' = Some (JInt (int (pid p)))"
    then obtain j kvs where j: "j \<in> set js" "j = JObj kvs"
      "dict_get kvs ''id'' = Some (JInt (int (pid p)))" by blast
    from list_all2_right[OF shape j(1)] obtain row where row: "row \<in> set ?rows" "?shape row j"
      by blast
    then have "dict_get kvs ''id'' = Some (JInt (int (fst row)))"
      using j(2) by (auto simp: dict_get_def)
    then have "fst row = pid p" using j(3) by simp
    moreover have "row \<in> set (project_users s)" "snd row = uid u" using row(1) by auto
    ultimately show "(pid p, uid u) \<in> set (project_users s)"
      by (metis prod.collapse)
  next
    assume "(pid p, uid u) \<in> set (project_users s)"
    then have "(pid p, uid u) \<in> set ?rows" by simp
    from list_all2_left[OF shape this] obtain j where j: "j \<in> set js" "?shape (pid p, uid u) j"
      by blast
    then have "\<exists>kvs. j = JObj kvs \<and> dict_get kvs ''id'' = Some (JInt (int (pid p)))"
      by (auto simp: dict_get_def)
    then show "\<exists>j\<in>set js. \<exists>kvs. j = JObj kvs \<and>
                  dict_get kvs ''id'' = Some (JInt (int (pid p)))"
      using j(1) by blast
  qed
  show ?thesis
    using res shape iff by blast
qed

theorem UserProjectsView_exact_witness:
  "urlpatterns no_int ascending 9 app_db user_projects
     \<lparr>req_method = GET, user = Some bob, body = JNull\<rparr> =
     (ok 200 (JList
        [JObj [(''id'', JInt 2), (''project_name'', JStr ''App''), (''client'', JStr ''Acme''),
               (''users'', JList [JObj [(''id'', JInt 2), (''username'', JStr ''bob'')]]),
               (''created_at'', JInt 8), (''created_by'', JNull)],
         JObj [(''id'', JInt 1), (''project_name'', JStr ''Website''),
               (''client'', JStr ''Acme''),
               (''users'', JList [JObj [(''id'', JInt 2), (''username'', JStr ''bob'')],
                                   JObj [(''id'', JInt 3), (''username'', JStr ''carol'')]]),
               (''created_at'', JInt 7), (''created_by'', JStr ''alice'')]]), app_db) \<and>
   urlpatterns no_int ascending 9 app_db user_projects
     \<lparr>req_method = GET, user = Some alice, body = JNull\<rparr> = (ok 200 (JList []), app_db)"
proof -
  have w: "consistent app_db"
    by (simp add: consistent_def scenario_defs)
  have bob: "\<exists>js. urlpatterns no_int ascending 9 app_db user_projects
                 \<lparr>req_method = GET, user = Some bob, body = JNull\<rparr> =
               (ok 200 (JList js), app_db)"
    using UserProjectsView_exact[where s = app_db and u = bob and py_int = no_int
        and py_set = ascending and now = 9
        and req = "\<lparr>req_method = GET, user = Some bob, body = JNull\<rparr>", OF w]
    by auto
  have alice: "\<exists>js. urlpatterns no_int ascending 9 app_db user_projects
                 \<lparr>req_method = GET, user = Some alice, body = JNull\<rparr> =
               (ok 200 (JList js), app_db) \<and>
               list_all2 (\<lambda>row j. True)
                 (filter (\<lambda>row. snd row = uid alice) (project_users app_db)) js"
    using UserProjectsView_exact[where s = app_db and u = alice and py_int = no_int
        and py_set = ascending and now = 9
        and req = "\<lparr>req_method = GET, user = Some alice, body = JNull\<rparr>", OF w]
    by (auto elim: list_all2_mono)
  have "filter (\<lambda>row. snd row = uid alice) (project_users app_db) = []"
    by (simp add: scenario_defs)
  then have a: "urlpatterns no_int ascending 9 app_db user_projects
                 \<lparr>req_method = GET, user = Some alice, body = JNull\<rparr> =
               (ok 200 (JList []), app_db)"
    using alice by auto
  have b: "urlpatterns no_int ascending 9 app_db user_projects
     \<lparr>req_method = GET, user = Some bob, body = JNull\<rparr> =
     (ok 200 (JList
        [JObj [(''id'', JInt 2), (''project_name'', JStr ''App''), (''client'', JStr ''Acme''),
               (''users'', JList [JObj [(''id'', JInt 2), (''username'', JStr ''bob'')]]),
               (''created_at'', JInt 8), (''created_by'', JNull)],
         JObj [(''id'', JInt 1), (''project_name'', JStr ''Website''),
               (''client'', JStr ''Acme''),
               (''users'', JList [JObj [(''id'', JInt 2), (''username'', JStr ''bob'')],
                                   JObj [(''id'', JInt 3), (''username'', JStr ''carol'')]]),
               (''created_at'', JInt 7), (''created_by'', JStr ''alice'')]]), app_db)"
    using bob
    by (simp add: view_defs UserProjectsView_def UserProjectsView_list_def
        UserProjectsView_get_queryset_def assigned_projects_def
        ProjectSerializer_to_representation_def ProjectSerializer_super_def
        fetch_created_by_def get_client_def get_user_def pk_repr_def project_users_all_def
        UserSerializer_def scenario_defs)
  show ?thesis using a b by simp
qed

subsection \<open>Anonymous callers\<close>

text \<open>
  Claim C8. An anonymous POST of \<open>/clients/\<close>, PUT, PATCH or DELETE of
  \<open>/clients/{id}/\<close>, POST of \<open>/clients/{id}/projects/\<close> or GET of \<open>/projects/\<close> raises
  \<open>NotAuthenticated\<close>, answered 401, whatever the path id, the body and the database, and
  the database is unchanged: the permission check precedes the handler.
\<close>

theorem anonymous_rejected:
  assumes "user req = None"
    and "(r = client_list_create \<and> req_method req = POST) \<or>
         (\<exists>pk. r = client_detail pk \<and> req_method req \<in> {PUT, PATCH, DELETE}) \<or>
         (\<exists>pk. r = project_create pk \<and> req_method req = POST) \<or>
         (r = user_projects \<and> req_method req = GET)"
  shows "urlpatterns py_int py_set now s r req = (Inl NotAuthenticated, s) \<and>
         http_status (fst (urlpatterns py_int py_set now s r req)) = 401"
  using assms
  by (auto simp: view_defs ClientListCreateView_def ClientListCreateView_get_permissions_def
      ClientDetailView_def ClientDetailView_get_permissions_def ProjectCreateView_def
      UserProjectsView_def)

theorem anonymous_rejected_witness:
  "urlpatterns no_int ascending 9 website_db (client_detail 1)
     \<lparr>req_method = DELETE, user = None, body = JNull\<rparr> = (Inl NotAuthenticated, website_db)"
  using anonymous_rejected[where req = "\<lparr>req_method = DELETE, user = None, body = JNull\<rparr>"
      and r = "client_detail 1" and py_int = no_int and py_set = ascending and now = 9
      and s = website_db]
  by simp

subsection \<open>Deleting a client\<close>

text \<open>
  Claim C5. An authenticated DELETE of \<open>/clients/{id}/\<close> answers 404 and changes nothing
  when no client has the id. Otherwise it answers 204 with no body, and in the new database
  the client is gone, no project refers to it, and the clients and projects left are just
  those of other ids and other clients.
\<close>

theorem ClientDetailView_delete:
  assumes "user req = Some u" and "req_method req = DELETE"
  shows "(get_client s pk = None \<longrightarrow>
            urlpatterns py_int py_set now s (client_detail pk) req = (Inl Http404, s)) \<and>
         (get_client s pk \<noteq> None \<longrightarrow>
            (\<exists>s'. urlpatterns py_int py_set now s (client_detail pk) req =
                     (Inr \<lparr>status = 204, data = None\<rparr>, s') \<and>
                   get_client s' pk = None \<and>
                   client_projects s' pk = [] \<and>
                   clients s' = filter (\<lambda>c. cid c \<noteq> pk) (clients s) \<and>
                   projects s' = filter (\<lambda>p. p_client p \<noteq> pk) (projects s) \<and>
                   users s' = users s))"
proof (intro conjI impI)
  assume "get_client s pk = None"
  then show "urlpatterns py_int py_set now s (client_detail pk) req = (Inl Http404, s)"
    using assms
    by (simp add: view_defs ClientDetailView_def ClientDetailView_get_permissions_def
        ClientDetailView_destroy_def ClientDetailView_get_object_def)
next
  assume "get_client s pk \<noteq> None"
  then obtain c where c: "get_client s pk = Some c" by blast
  then have cid: "cid c = pk"
    by (auto simp: get_client_def dest: find_SomeD)
  have res: "urlpatterns py_int py_set now s (client_detail pk) req =
               (Inr \<lparr>status = 204, data = None\<rparr>, delete_client s c)"
    using assms c
    by (simp add: view_defs ClientDetailView_def ClientDetailView_get_permissions_def
        ClientDetailView_destroy_def ClientDetailView_get_object_def)
  have "get_client (delete_client s c) pk = None"
    by (simp add: get_client_def delete_client_def cid find_None_all)
  moreover have "client_projects (delete_client s c) pk = []"
    by (simp add: client_projects_def delete_client_def cid filter_empty_conv)
  ultimately show "\<exists>s'. urlpatterns py_int py_set now s (client_detail pk) req =
                     (Inr \<lparr>status = 204, data = None\<rparr>, s') \<and>
                   get_client s' pk = None \<and>
                   client_projects s' pk = [] \<and>
                   clients s' = filter (\<lambda>c. cid c \<noteq> pk) (clients s) \<and>
                   projects s' = filter (\<lambda>p. p_client p \<noteq> pk) (projects s) \<and>
                   users s' = users s"
    using res by (simp add: delete_client_def cid)
qed

theorem ClientDetailView_delete_witness:
  "\<exists>s'. urlpatterns no_int ascending 9 website_db (client_detail 1)
            \<lparr>req_method = DELETE, user = Some bob, body = JNull\<rparr> =
            (Inr \<lparr>status = 204, data = None\<rparr>, s') \<and>
          clients s' = [] \<and> projects s' = [] \<and>
        urlpatterns no_int ascending 9 website_db (client_detail 4)
            \<lparr>req_method = DELETE, user = Some bob, body = JNull\<rparr> = (Inl Http404, website_db)"
proof -
  have a: "get_client website_db 1 \<noteq> None" "get_client website_db 4 = None"
    by (simp_all add: get_client_def scenario_defs)
  show ?thesis
    using ClientDetailView_delete[where u = bob and s = website_db and pk = 1
        and py_int = no_int and py_set = ascending and now = 9
        and req = "\<lparr>req_method = DELETE, user = Some bob, body = JNull\<rparr>"]
      ClientDetailView_delete[where u = bob and s = website_db and pk = 4
        and py_int = no_int and py_set = ascending and now = 9
        and req = "\<lparr>req_method = DELETE, user = Some bob, body = JNull\<rparr>"] a
    by (auto simp: scenario_defs)
qed

subsection \<open>Creating a project: validation\<close>

lemma pks_to_internal_fails:
  "j \<in> set js \<Longrightarrow> \<forall>u. pk_to_internal py_int s j \<noteq> Inr u \<Longrightarrow>
     \<exists>c. pks_to_internal py_int s js = Inl c"
proof (induction js)
  case Nil
  then show ?case by simp
next
  case (Cons a js)
  then show ?case
    by (cases "pk_to_internal py_int s a"; cases "pks_to_internal py_int s js") auto
qed

text \<open>
  Claim C4. An authenticated POST of \<open>/clients/{id}/projects/\<close> whose \<open>users\<close> list holds
  an item that does not resolve to a user raises a validation error, answered 400, and the
  database is unchanged: no project row is created.
\<close>

theorem unknown_user_rejected:
  assumes "user req = Some u" and "req_method req = POST"
    and "body req = JObj kvs" and "dict_get kvs ''users'' = Some (JList js)"
    and "j \<in> set js" and "\<forall>x. pk_to_internal py_int s j \<noteq> Inr x"
  shows "\<exists>es. urlpatterns py_int py_set now s (project_create pk) req = (Inl (ValidationError es), s) \<and>
           http_status (fst (urlpatterns py_int py_set now s (project_create pk) req)) = 400"
proof -
  obtain c where "pks_to_internal py_int s js = Inl c"
    using pks_to_internal_fails[OF assms(5,6)] by blast
  then have "users_field py_int s (dict_get kvs ''users'') = Invalid c"
    using assms(4) by (simp add: users_field_def many_related_def)
  then have "\<exists>es. project_is_valid py_int s (body req) = Inl (ValidationError es)"
    using assms(3)
    by (cases "CharField False (dict_get kvs ''project_name'')")
      (simp_all add: project_is_valid_def)
  then show ?thesis
    using assms(1,2)
    by (auto simp: view_defs ProjectCreateView_def ProjectCreateView_create_def
        ProjectCreateView_super_create_def)
qed

theorem unknown_user_rejected_witness:
  "\<exists>es. urlpatterns no_int ascending 9 acme_db (project_create 1)
           \<lparr>req_method = POST, user = Some alice,
            body = JObj [(''project_name'', JStr ''Website''),
                         (''users'', JList [JInt 2, JInt 4])]\<rparr> =
           (Inl (ValidationError es), acme_db)"
proof -
  have a: "\<forall>x. pk_to_internal no_int acme_db (JInt 4) \<noteq> Inr x"
    by (simp add: pk_to_internal_def user_by_pk_def get_user_def scenario_defs)
  have b: "dict_get [(''project_name'', JStr ''Website''), (''users'', JList [JInt 2, JInt 4])]
             ''users'' = Some (JList [JInt 2, JInt 4])"
    by (simp add: dict_get_def)
  show ?thesis
    using unknown_user_rejected[where u = alice and js = "[JInt 2, JInt 4]" and j = "JInt 4"
        and py_int = no_int and py_set = ascending and s = acme_db and now = 9 and pk = 1
        and req = "\<lparr>req_method = POST, user = Some alice,
            body = JObj [(''project_name'', JStr ''Website''),
                         (''users'', JList [JInt 2, JInt 4])]\<rparr>", OF _ _ _ b _ a]
    by auto
qed

subsection \<open>Creating a project: the response\<close>

lemma ProjectCreateSerializer_no_id: "dict_get (ProjectCreateSerializer s p) ''id'' = None"
  by (simp add: ProjectCreateSerializer_def dict_get_def)

lemma ProjectCreateView_create_raises:
  "\<exists>e s'. ProjectCreateView_create py_int py_set now s req pk = (Inl e, s')"
proof (cases "ProjectCreateView_super_create py_int py_set now s req pk")
  case (Pair r s')
  show ?thesis
  proof (cases r)
    case (Inl e)
    then show ?thesis using Pair by (simp add: ProjectCreateView_create_def)
  next
    case (Inr d)
    then obtain p s0 where "d = ProjectCreateSerializer s0 p"
      using Pair
      by (auto simp: ProjectCreateView_super_create_def split: sum.splits prod.splits)
    then show ?thesis
      using Pair Inr by (simp add: ProjectCreateView_create_def ProjectCreateSerializer_no_id)
  qed
qed

lemma project_create_never_201:
  "http_status (fst (urlpatterns py_int py_set now s (project_create pk) req)) \<noteq> 201"
proof -
  obtain e s' where "ProjectCreateView_create py_int py_set now s req pk = (Inl e, s')"
    using ProjectCreateView_create_raises by blast
  then show ?thesis
    by (cases e; cases "req_method req")
      (auto simp: view_defs ProjectCreateView_def)
qed

lemma project_create_valid_KeyError:
  assumes "user req = Some u" and "req_method req = POST"
    and "project_is_valid py_int s (body req) = Inr (t, us)"
    and "get_client s pk = Some c"
  shows "urlpatterns py_int py_set now s (project_create pk) req =
           (Inl (KeyError ''id''), snd (create_project py_set now s t us c (uid u)))"
  using assms
  by (simp add: view_defs ProjectCreateView_def ProjectCreateView_create_def
      ProjectCreateView_super_create_def ProjectCreateView_perform_create_def
      ProjectCreateSerializer_no_id split: prod.splits)

text \<open>
  Claim C1. The claim is that a valid authenticated POST of \<open>/clients/{id}/projects/\<close>
  under an existing client answers 201 with the detail representation of the new project.
  The view does not get there: \<open>create\<close> subscripts the data of
  \<open>ProjectCreateSerializer\<close>, whose keys are \<open>project_name\<close> and \<open>users\<close>, with
  \<open>'id'\<close>. In the scenario of the specification (alice posts the project ``Website'' with
  users 2 and 3 under client 1) \<open>KeyError\<close> leaves the view, answered 500, after the project
  and its assignments have been saved.
\<close>

theorem project_create_scenario_500:
  "urlpatterns no_int ascending 7 acme_db (project_create 1)
     \<lparr>req_method = POST, user = Some alice,
      body = JObj [(''project_name'', JStr ''Website''), (''users'', JList [JInt 2, JInt 3])]\<rparr> =
     (Inl (KeyError ''id''), website_db) \<and>
   http_status (Inl (KeyError ''id'')) = 500"
  by (simp add: view_defs ProjectCreateView_def ProjectCreateView_create_def
      ProjectCreateView_super_create_def ProjectCreateView_perform_create_def
      ProjectCreateSerializer_def project_is_valid_def CharField_def users_field_def
      many_related_def pk_to_internal_def user_by_pk_def get_user_def get_client_def
      create_project_def ascending_def Let_def run_validators_def strip_def is_space_def
      dict_get_def
      project_users_all_def scenario_defs)

subsection \<open>Creating a project under a missing client\<close>

lemma project_create_missing_client:
  assumes "user req = Some u" and "req_method req = POST" and "get_client s pk = None"
  shows "(\<forall>vd. project_is_valid py_int s (body req) = Inr vd \<longrightarrow>
            urlpatterns py_int py_set now s (project_create pk) req = (Inl DoesNotExist, s)) \<and>
         (\<forall>e. project_is_valid py_int s (body req) = Inl e \<longrightarrow>
            urlpatterns py_int py_set now s (project_create pk) req = (Inl e, s)) \<and>
         http_status (fst (urlpatterns py_int py_set now s (project_create pk) req)) \<noteq> 404"
proof -
  have v: "\<exists>es. e = ValidationError es" if "project_is_valid py_int s (body req) = Inl e" for e
    using that
    by (auto simp: project_is_valid_def not_a_dict_def split: json.splits validated.splits)
  show ?thesis
    using assms v
    by (cases "project_is_valid py_int s (body req)")
      (auto simp: view_defs ProjectCreateView_def ProjectCreateView_create_def
        ProjectCreateView_super_create_def ProjectCreateView_perform_create_def)
qed

text \<open>
  Claim C2. The claim is that the POST answers 404 when no client has the path id. In the
  scenario, alice posts a valid project under client 9, which does not exist:
  \<open>perform_create\<close> looks the client up with \<open>Client.objects.get\<close>, whose
  \<open>DoesNotExist\<close> is not one of the framework's exceptions, so it leaves the view and is
  answered 500; the database is unchanged.
\<close>

theorem project_create_missing_client_500:
  "urlpatterns no_int ascending 7 acme_db (project_create 9)
     \<lparr>req_method = POST, user = Some alice,
      body = JObj [(''project_name'', JStr ''Website''), (''users'', JList [JInt 2, JInt 3])]\<rparr> =
     (Inl DoesNotExist, acme_db) \<and>
   http_status (Inl DoesNotExist) = 500 \<and>
   get_client acme_db 9 = None"
  by (simp add: view_defs ProjectCreateView_def ProjectCreateView_create_def
      ProjectCreateView_super_create_def ProjectCreateView_perform_create_def
      ProjectCreateSerializer_def project_is_valid_def CharField_def users_field_def
      many_related_def pk_to_internal_def user_by_pk_def get_user_def get_client_def
      create_project_def ascending_def Let_def run_validators_def strip_def is_space_def
      dict_get_def
      project_users_all_def scenario_defs)

subsection \<open>Creating a client\<close>

text \<open>
  Claim C3, as stated, fails on the body of the response. \<open>get_serializer_class\<close> picks
  \<open>ClientCreateSerializer\<close> for POST, so the 201 carries \<open>client_name\<close> alone, not the
  six keys of the detail representation: alice posts the name ``Acme'' and the body is
  \<open>{client_name: Acme}\<close>, while the detail representation of the stored client has
  \<open>id\<close>, \<open>created_at\<close>, \<open>created_by\<close>, \<open>updated_at\<close> and \<open>projects\<close> as well.
\<close>

theorem client_create_body_counterexample:
  "urlpatterns no_int ascending 5 empty_db client_list_create
     \<lparr>req_method = POST, user = Some alice, body = JObj [(''client_name'', JStr ''Acme'')]\<rparr> =
     (ok 201 (JObj [(''client_name'', JStr ''Acme'')]), acme_db) \<and>
   ClientSerializer acme_db acme =
     Inr (JObj [(''id'', JInt 1), (''client_name'', JStr ''Acme''), (''created_at'', JInt 5),
                (''created_by'', JStr ''alice''), (''updated_at'', JInt 5),
                (''projects'', JList [])]) \<and>
   JObj [(''client_name'', JStr ''Acme'')] \<noteq>
     JObj [(''id'', JInt 1), (''client_name'', JStr ''Acme''), (''created_at'', JInt 5),
           (''created_by'', JStr ''alice''), (''updated_at'', JInt 5), (''projects'', JList [])]"
  by (simp add: view_defs ClientListCreateView_def ClientListCreateView_get_permissions_def
      ClientListCreateView_create_def ClientListCreateView_perform_create_def
      ClientListCreateView_get_serializer_class_def ClientListCreateView_serializer_data_def
      ClientCreateSerializer_def ClientSerializer_def string_related_user_def
      fetch_created_by_def get_user_def client_projects_def
      client_is_valid_def CharField_def run_validators_def strip_def is_space_def dict_get_def
      create_client_def Let_def scenario_defs)

lemma CharField_text:
  "strip x \<noteq> [] \<Longrightarrow> length (strip x) \<le> 255 \<Longrightarrow> CHR 0x00 \<notin> set (strip x) \<Longrightarrow>
     CharField partial (Some (JStr x)) = Valid (strip x)"
  by (simp add: CharField_def run_validators_def)

lemma CharField_missing_or_empty:
  "CharField False None = Invalid ''required''"
  "CharField partial (Some (JStr [])) = Invalid ''blank''"
  by (simp_all add: CharField_def strip_def)

text \<open>
  Claim C3, amended. For an authenticated POST of \<open>/clients/\<close> whose body is a dict: if
  \<open>client_name\<close> is a text that, with surrounding whitespace removed, is not empty, has at
  most 255 characters and no null character, the answer is 201 with the body
  \<open>{client_name}\<close> holding the trimmed name, and the database gains one client with the next
  id, that name, \<open>created_by\<close> the caller and \<open>created_at\<close> and \<open>updated_at\<close> the
  instant of the request; if \<open>client_name\<close> is missing or the empty text, a validation
  error is raised, answered 400, and the database is unchanged.
\<close>

theorem ClientListCreateView_post:
  assumes "user req = Some u" and "req_method req = POST" and "body req = JObj kvs"
  shows "(\<forall>x. dict_get kvs ''client_name'' = Some (JStr x) \<and> strip x \<noteq> [] \<and>
              length (strip x) \<le> 255 \<and> CHR 0x00 \<notin> set (strip x) \<longrightarrow>
            urlpatterns py_int py_set now s client_list_create req =
              (ok 201 (JObj [(''client_name'', JStr (strip x))]),
               s\<lparr>clients := clients s @
                    [\<lparr>cid = next_client_id s, client_name = strip x, c_created_at = now,
                      c_created_by = Some (uid u), c_updated_at = now\<rparr>],
                 next_client_id := Suc (next_client_id s)\<rparr>)) \<and>
         (dict_get kvs ''client_name'' = None \<or> dict_get kvs ''client_name'' = Some (JStr []) \<longrightarrow>
            (\<exists>es. urlpatterns py_int py_set now s client_list_create req =
                     (Inl (ValidationError es), s)) \<and>
            http_status (fst (urlpatterns py_int py_set now s client_list_create req)) = 400)"
proof (intro conjI allI impI)
  fix x
  assume "dict_get kvs ''client_name'' = Some (JStr x) \<and> strip x \<noteq> [] \<and>
          length (strip x) \<le> 255 \<and> CHR 0x00 \<notin> set (strip x)"
  then have "client_is_valid False (body req) = Inr (Some (strip x))"
    using assms(3) by (simp add: client_is_valid_def CharField_text)
  then show "urlpatterns py_int py_set now s client_list_create req =
              (ok 201 (JObj [(''client_name'', JStr (strip x))]),
               s\<lparr>clients := clients s @
                    [\<lparr>cid = next_client_id s, client_name = strip x, c_created_at = now,
                      c_created_by = Some (uid u), c_updated_at = now\<rparr>],
                 next_client_id := Suc (next_client_id s)\<rparr>)"
    using assms(1,2)
    by (simp add: view_defs ClientListCreateView_def ClientListCreateView_get_permissions_def
        ClientListCreateView_create_def ClientListCreateView_perform_create_def
        ClientListCreateView_get_serializer_class_def ClientListCreateView_serializer_data_def
        ClientCreateSerializer_def create_client_def Let_def)
next
  assume "dict_get kvs ''client_name'' = None \<or> dict_get kvs ''client_name'' = Some (JStr [])"
  then have "\<exists>c. client_is_valid False (body req) = Inl (ValidationError [(''client_name'', c)])"
    using assms(3) by (auto simp: client_is_valid_def CharField_missing_or_empty)
  then have r: "\<exists>es. urlpatterns py_int py_set now s client_list_create req =
                     (Inl (ValidationError es), s)"
    using assms(1,2)
    by (auto simp: view_defs ClientListCreateView_def ClientListCreateView_get_permissions_def
        ClientListCreateView_create_def)
  then show "\<exists>es. urlpatterns py_int py_set now s client_list_create req =
                     (Inl (ValidationError es), s)" .
  from r show "http_status (fst (urlpatterns py_int py_set now s client_list_create req)) = 400"
    by (auto simp: http_status_def)
qed

theorem ClientListCreateView_post_witness:
  "urlpatterns no_int ascending 5 empty_db client_list_create
     \<lparr>req_method = POST, user = Some alice, body = JObj [(''client_name'', JStr '' Acme'')]\<rparr> =
     (ok 201 (JObj [(''client_name'', JStr ''Acme'')]), acme_db) \<and>
   http_status (fst (urlpatterns no_int ascending 5 empty_db client_list_create
     \<lparr>req_method = POST, user = Some alice, body = JObj []\<rparr>)) = 400"
proof -
  have a: "dict_get [(''client_name'', JStr '' Acme'')] ''client_name'' = Some (JStr '' Acme'')"
    "strip '' Acme'' = ''Acme''" "dict_get [] ''client_name'' = None"
    by (simp_all add: dict_get_def strip_def is_space_def)
  show ?thesis
    using ClientListCreateView_post[where u = alice and kvs = "[(''client_name'', JStr '' Acme'')]"
        and py_int = no_int and py_set = ascending and now = 5 and s = empty_db and req =
        "\<lparr>req_method = POST, user = Some alice, body = JObj [(''client_name'', JStr '' Acme'')]\<rparr>"]
      ClientListCreateView_post[where u = alice and kvs = "[]"
        and py_int = no_int and py_set = ascending and now = 5 and s = empty_db
        and req = "\<lparr>req_method = POST, user = Some alice, body = JObj []\<rparr>"]
      a
    by (simp add: scenario_defs)
qed

subsection \<open>Updating a client\<close>

lemma wf_client_refs:
  assumes "consistent s" and "c \<in> set (clients s)"
  shows "cid c < next_client_id s"
    and "\<And>i. c_created_by c = Some i \<Longrightarrow> i \<in> set (map uid (users s))"
  using assms unfolding consistent_def list_all_iff by (auto split: option.splits)

lemma string_related_user_wf:
  assumes "consistent s" and "c \<in> set (clients s)"
  shows "\<exists>cb. string_related_user s (c_created_by c) = Inr cb \<and>
           (case c_created_by c of
              None \<Rightarrow> cb = JNull
            | Some i \<Rightarrow> \<exists>u\<in>set (users s). uid u = i \<and> cb = JStr (username u))"
proof (cases "c_created_by c")
  case None
  then show ?thesis by (simp add: string_related_user_def fetch_created_by_def)
next
  case (Some i)
  then obtain u where "get_user s i = Some u" "u \<in> set (users s)" "uid u = i"
    using wf_get_user[OF assms(1)] wf_client_refs(2)[OF assms] by blast
  then show ?thesis
    using Some by (auto simp: string_related_user_def fetch_created_by_def)
qed

lemma ClientSerializer_wf:
  assumes "consistent s" and "c \<in> set (clients s)"
  shows "\<exists>cb ps. ClientSerializer s c =
           Inr (JObj [(''id'', JInt (int (cid c))),
                      (''client_name'', JStr (client_name c)),
                      (''created_at'', JInt (int (c_created_at c))),
                      (''created_by'', cb),
                      (''updated_at'', JInt (int (c_updated_at c))),
                      (''projects'', JList ps)]) \<and>
           string_related_user s (c_created_by c) = Inr cb \<and>
           map_exn (ProjectSerializer_to_representation s) (client_projects s (cid c)) = Inr ps"
proof -
  obtain cb where cb: "string_related_user s (c_created_by c) = Inr cb"
    using string_related_user_wf[OF assms] by blast
  have "set (client_projects s (cid c)) \<subseteq> set (projects s)"
    by (auto simp: client_projects_def)
  then obtain ps where
    "map_exn (ProjectSerializer_to_representation s) (client_projects s (cid c)) = Inr ps"
    using projects_render[OF assms(1)] by blast
  then show ?thesis
    using cb by (simp add: ClientSerializer_def)
qed

lemma find_map_same_key:
  "f c' = k \<Longrightarrow>
   find (\<lambda>x. f x = k) (map (\<lambda>x. if f x = k then c' else x) xs) =
     (case find (\<lambda>x. f x = k) xs of None \<Rightarrow> None | Some y \<Rightarrow> Some c')"
  by (induction xs) auto

lemma find_map_other_key:
  "f c' = k \<Longrightarrow> i \<noteq> k \<Longrightarrow>
   find (\<lambda>x. f x = i) (map (\<lambda>x. if f x = k then c' else x) xs) = find (\<lambda>x. f x = i) xs"
  by (induction xs) auto

lemma map_key_replace:
  "f c' = k \<Longrightarrow> map f (map (\<lambda>x. if f x = k then c' else x) xs) = map f xs"
  by (induction xs) auto

lemma wf_save_client:
  assumes "consistent s" and "c0 \<in> set (clients s)" and "cid c = cid c0"
    and "c_created_by c = c_created_by c0"
  shows "consistent (snd (save_client now s c))"
proof -
  let ?c' = "c\<lparr>c_updated_at := now\<rparr>"
  let ?cs = "map (\<lambda>x. if cid x = cid c then ?c' else x) (clients s)"
  have keys: "map cid ?cs = map cid (clients s)"
    by (rule map_key_replace) simp
  have mem: "x \<in> set ?cs \<Longrightarrow> x = ?c' \<or> x \<in> set (clients s)" for x
    by auto
  have lt: "cid c < next_client_id s"
    using wf_client_refs(1)[OF assms(1,2)] assms(3) by simp
  have cb: "case c_created_by c of None \<Rightarrow> True | Some i \<Rightarrow> i \<in> set (map uid (users s))"
    using wf_client_refs(2)[OF assms(1,2)] assms(4) by (auto split: option.splits)
  have 1: "list_all (\<lambda>c. cid c < next_client_id s) ?cs"
    unfolding list_all_iff using mem lt wf_client_refs(1)[OF assms(1)] by fastforce
  have 2: "list_all (\<lambda>c. case c_created_by c of None \<Rightarrow> True
                    | Some i \<Rightarrow> i \<in> set (map uid (users s))) ?cs"
    unfolding list_all_iff
  proof
    fix x assume "x \<in> set ?cs"
    then consider "x = ?c'" | "x \<in> set (clients s)" using mem by blast
    then show "case c_created_by x of None \<Rightarrow> True | Some i \<Rightarrow> i \<in> set (map uid (users s))"
    proof cases
      case 1
      then show ?thesis using cb by simp
    next
      case 2
      then show ?thesis using wf_client_refs(2)[OF assms(1) 2] by (auto split: option.splits)
    qed
  qed
  have d: "distinct (map cid ?cs)"
    unfolding keys using assms(1) by (simp add: consistent_def)
  have img: "set (map cid ?cs) = set (map cid (clients s))"
    unfolding keys ..
  have sel: "users (s\<lparr>clients := ?cs\<rparr>) = users s"
    "clients (s\<lparr>clients := ?cs\<rparr>) = ?cs"
    "projects (s\<lparr>clients := ?cs\<rparr>) = projects s"
    "project_users (s\<lparr>clients := ?cs\<rparr>) = project_users s"
    "next_client_id (s\<lparr>clients := ?cs\<rparr>) = next_client_id s"
    "next_project_id (s\<lparr>clients := ?cs\<rparr>) = next_project_id s"
    by simp_all
  have "consistent (s\<lparr>clients := ?cs\<rparr>)"
    unfolding consistent_def sel img using assms(1)[unfolded consistent_def] d 1 2 by blast
  then show ?thesis by (simp add: save_client_def Let_def)
qed

lemma client_is_valid_Inl:
  "client_is_valid partial d = Inl e \<Longrightarrow> \<exists>es. e = ValidationError es"
  by (auto simp: client_is_valid_def not_a_dict_def split: json.splits validated.splits)

lemma get_client_mem: "get_client s i = Some c \<Longrightarrow> c \<in> set (clients s) \<and> cid c = i"
  by (auto simp: get_client_def dest: find_SomeD)

lemma ClientDetailView_update_accepted:
  assumes "consistent s" and "get_client s pk = Some c"
    and "client_is_valid partial (body req) = Inr vd"
  shows "\<exists>cb ps.
           ClientDetailView_update now s req pk partial =
             (ok 200 (JObj [(''id'', JInt (int (cid c))),
                            (''client_name'',
                             JStr (case vd of None \<Rightarrow> client_name c | Some t \<Rightarrow> t)),
                            (''created_at'', JInt (int (c_created_at c))),
                            (''created_by'', cb),
                            (''updated_at'', JInt (int now)),
                            (''projects'', JList ps)]),
              s\<lparr>clients :=
                   map (\<lambda>x. if cid x = pk
                             then c\<lparr>client_name :=
                                      (case vd of None \<Rightarrow> client_name c | Some t \<Rightarrow> t),
                                    c_updated_at := now\<rparr>
                             else x) (clients s)\<rparr>) \<and>
           get_client
             (s\<lparr>clients :=
                  map (\<lambda>x. if cid x = pk
                            then c\<lparr>client_name :=
                                     (case vd of None \<Rightarrow> client_name c | Some t \<Rightarrow> t),
                                   c_updated_at := now\<rparr>
                            else x) (clients s)\<rparr>) pk =
             Some (c\<lparr>client_name := (case vd of None \<Rightarrow> client_name c | Some t \<Rightarrow> t),
                     c_updated_at := now\<rparr>)"
proof -
  have cm: "c \<in> set (clients s)" "cid c = pk"
    using assms(2) get_client_mem by blast+
  define c1 where "c1 = (case vd of None \<Rightarrow> c | Some t \<Rightarrow> c\<lparr>client_name := t\<rparr>)"
  define c' where
    "c' = c\<lparr>client_name := (case vd of None \<Rightarrow> client_name c | Some t \<Rightarrow> t),
            c_updated_at := now\<rparr>"
  define s' where "s' = s\<lparr>clients := map (\<lambda>x. if cid x = pk then c' else x) (clients s)\<rparr>"
  have c1: "cid c1 = pk" "c_created_by c1 = c_created_by c"
    using cm(2) by (auto simp: c1_def split: option.splits)
  have c'1: "c' = c1\<lparr>c_updated_at := now\<rparr>"
    by (simp add: c'_def c1_def split: option.splits)
  have sv: "save_client now s c1 = (c', s')"
    using c1(1) by (simp add: save_client_def Let_def c'1 s'_def)
  have cons: "consistent s'"
    using wf_save_client[OF assms(1) cm(1), of c1 now] c1 cm(2) sv by simp
  have g: "get_client s' pk = Some c'"
    using assms(2) cm(2) by (simp add: get_client_def s'_def find_map_same_key c'_def)
  then have "c' \<in> set (clients s')"
    using get_client_mem by blast
  from ClientSerializer_wf[OF cons this] obtain cb ps where
    j: "ClientSerializer s' c' =
          Inr (JObj [(''id'', JInt (int (cid c'))),
                     (''client_name'', JStr (client_name c')),
                     (''created_at'', JInt (int (c_created_at c'))),
                     (''created_by'', cb),
                     (''updated_at'', JInt (int (c_updated_at c'))),
                     (''projects'', JList ps)])"
    by blast
  have "ClientDetailView_update now s req pk partial =
          (ok 200 (JObj [(''id'', JInt (int (cid c'))),
                     (''client_name'', JStr (client_name c')),
                     (''created_at'', JInt (int (c_created_at c'))),
                     (''created_by'', cb),
                     (''updated_at'', JInt (int (c_updated_at c'))),
                     (''projects'', JList ps)]), s')"
    using assms(2,3) sv j
    by (simp add: ClientDetailView_update_def ClientDetailView_get_object_def
        ClientDetailView_perform_update_def c1_def)
  then show ?thesis
    using g unfolding s'_def c'_def by auto
qed

lemma ClientDetailView_update_rejected:
  assumes "get_client s pk = Some c" and "client_is_valid partial (body req) = Inl e"
  shows "ClientDetailView_update now s req pk partial = (Inl e, s)"
  using assms by (simp add: ClientDetailView_update_def ClientDetailView_get_object_def)

text \<open>
  Claim C6. An authenticated PUT or PATCH of \<open>/clients/{id}/\<close> on a consistent database
  answers 404 and changes nothing when no client has the id. When a client has it, then for
  any body one of two things happens. Either validation rejects the body (exactly when the
  serializer's validation fails) and the database is unchanged; or the answer is 200 and
  the database differs only in the row of that client, which keeps its \<open>id\<close>,
  \<open>created_at\<close> and \<open>created_by\<close>, has \<open>updated_at\<close> set to the instant of the request
  and \<open>client_name\<close> set to the validated name, the projects and every other table being
  as before; the 200 carries these values. In particular a valid text as \<open>client_name\<close>
  is accepted and stored trimmed; a PATCH without \<open>client_name\<close> is accepted, keeps the
  name and still refreshes \<open>updated_at\<close>; an empty \<open>client_name\<close>, or a PUT without one,
  is rejected.
\<close>

theorem ClientDetailView_update_frame:
  assumes "consistent s" and "user req = Some u"
    and "req_method req = PUT \<or> req_method req = PATCH"
  shows "(get_client s pk = None \<longrightarrow>
            urlpatterns py_int py_set now s (client_detail pk) req = (Inl Http404, s)) \<and>
         (\<forall>c. get_client s pk = Some c \<longrightarrow>
           ((\<exists>es. urlpatterns py_int py_set now s (client_detail pk) req = (Inl (ValidationError es), s)) \<and>
              (\<exists>e. client_is_valid (req_method req = PATCH) (body req) = Inl e) \<or>
            (\<exists>t cb ps.
               urlpatterns py_int py_set now s (client_detail pk) req =
                 (ok 200 (JObj [(''id'', JInt (int (cid c))),
                                (''client_name'', JStr t),
                                (''created_at'', JInt (int (c_created_at c))),
                                (''created_by'', cb),
                                (''updated_at'', JInt (int now)),
                                (''projects'', JList ps)]),
                  s\<lparr>clients := map (\<lambda>y. if cid y = pk then c\<lparr>client_name := t, c_updated_at := now\<rparr> else y) (clients s)\<rparr>) \<and>
               get_client (s\<lparr>clients := map (\<lambda>y. if cid y = pk then c\<lparr>client_name := t, c_updated_at := now\<rparr> else y) (clients s)\<rparr>) pk =
                 Some (c\<lparr>client_name := t, c_updated_at := now\<rparr>) \<and>
               (\<exists>vd. client_is_valid (req_method req = PATCH) (body req) = Inr vd \<and>
                  t = (case vd of None \<Rightarrow> client_name c | Some t' \<Rightarrow> t')))) \<and>
           (\<forall>kvs x. body req = JObj kvs \<and> dict_get kvs ''client_name'' = Some (JStr x) \<and>
               strip x \<noteq> [] \<and> length (strip x) \<le> 255 \<and> CHR 0x00 \<notin> set (strip x) \<longrightarrow>
              (\<exists>j. urlpatterns py_int py_set now s (client_detail pk) req =
                     (ok 200 j, s\<lparr>clients := map (\<lambda>y. if cid y = pk then c\<lparr>client_name := strip x, c_updated_at := now\<rparr> else y) (clients s)\<rparr>))) \<and>
           (\<forall>kvs. req_method req = PATCH \<and> body req = JObj kvs \<and>
               dict_get kvs ''client_name'' = None \<longrightarrow>
              (\<exists>j. urlpatterns py_int py_set now s (client_detail pk) req =
                     (ok 200 j, s\<lparr>clients := map (\<lambda>y. if cid y = pk then c\<lparr>c_updated_at := now\<rparr> else y) (clients s)\<rparr>))) \<and>
           (\<forall>kvs. body req = JObj kvs \<and>
               (dict_get kvs ''client_name'' = Some (JStr []) \<or>
                req_method req = PUT \<and> dict_get kvs ''client_name'' = None) \<longrightarrow>
              (\<exists>es. urlpatterns py_int py_set now s (client_detail pk) req = (Inl (ValidationError es), s))))"
proof (intro conjI allI impI)
  assume "get_client s pk = None"
  then show "urlpatterns py_int py_set now s (client_detail pk) req = (Inl Http404, s)"
    using assms(2,3)
    by (auto simp: view_defs ClientDetailView_def ClientDetailView_get_permissions_def
        ClientDetailView_update_def ClientDetailView_get_object_def)
next
  fix c assume c: "get_client s pk = Some c"
  have run: "urlpatterns py_int py_set now s (client_detail pk) req =
               ClientDetailView_update now s req pk (req_method req = PATCH)"
    using assms(2,3)
    by (auto simp: view_defs ClientDetailView_def ClientDetailView_get_permissions_def)
  show "((\<exists>es. urlpatterns py_int py_set now s (client_detail pk) req = (Inl (ValidationError es), s)) \<and>
              (\<exists>e. client_is_valid (req_method req = PATCH) (body req) = Inl e) \<or>
            (\<exists>t cb ps.
               urlpatterns py_int py_set now s (client_detail pk) req =
                 (ok 200 (JObj [(''id'', JInt (int (cid c))),
                                (''client_name'', JStr t),
                                (''created_at'', JInt (int (c_created_at c))),
                                (''created_by'', cb),
                                (''updated_at'', JInt (int now)),
                                (''projects'', JList ps)]),
                  s\<lparr>clients := map (\<lambda>y. if cid y = pk then c\<lparr>client_name := t, c_updated_at := now\<rparr> else y) (clients s)\<rparr>) \<and>
               get_client (s\<lparr>clients := map (\<lambda>y. if cid y = pk then c\<lparr>client_name := t, c_updated_at := now\<rparr> else y) (clients s)\<rparr>) pk =
                 Some (c\<lparr>client_name := t, c_updated_at := now\<rparr>) \<and>
               (\<exists>vd. client_is_valid (req_method req = PATCH) (body req) = Inr vd \<and>
                  t = (case vd of None \<Rightarrow> client_name c | Some t' \<Rightarrow> t'))))"
  proof (cases "client_is_valid (req_method req = PATCH) (body req)")
    case (Inl e)
    then obtain es where "e = ValidationError es"
      using client_is_valid_Inl by blast
    then show ?thesis
      using ClientDetailView_update_rejected[OF c Inl] Inl run by auto
  next
    case (Inr vd)
    from ClientDetailView_update_accepted[OF assms(1) c Inr, of now]
    show ?thesis
      unfolding run using Inr by blast
  qed
next
  fix c kvs x
  assume c: "get_client s pk = Some c"
    and b: "body req = JObj kvs \<and> dict_get kvs ''client_name'' = Some (JStr x) \<and>
            strip x \<noteq> [] \<and> length (strip x) \<le> 255 \<and> CHR 0x00 \<notin> set (strip x)"
  have run: "urlpatterns py_int py_set now s (client_detail pk) req =
               ClientDetailView_update now s req pk (req_method req = PATCH)"
    using assms(2,3)
    by (auto simp: view_defs ClientDetailView_def ClientDetailView_get_permissions_def)
  have v: "client_is_valid (req_method req = PATCH) (body req) = Inr (Some (strip x))"
    using b by (simp add: client_is_valid_def CharField_text)
  from ClientDetailView_update_accepted[OF assms(1) c v, of now]
  show "\<exists>j. urlpatterns py_int py_set now s (client_detail pk) req =
              (ok 200 j, s\<lparr>clients := map (\<lambda>y. if cid y = pk then c\<lparr>client_name := strip x, c_updated_at := now\<rparr> else y) (clients s)\<rparr>)"
    unfolding run by auto
next
  fix c kvs
  assume c: "get_client s pk = Some c"
    and b: "req_method req = PATCH \<and> body req = JObj kvs \<and>
            dict_get kvs ''client_name'' = None"
  have run: "urlpatterns py_int py_set now s (client_detail pk) req =
               ClientDetailView_update now s req pk (req_method req = PATCH)"
    using assms(2,3)
    by (auto simp: view_defs ClientDetailView_def ClientDetailView_get_permissions_def)
  have v: "client_is_valid (req_method req = PATCH) (body req) = Inr None"
    using b by (simp add: client_is_valid_def CharField_def)
  from ClientDetailView_update_accepted[OF assms(1) c v, of now]
  show "\<exists>j. urlpatterns py_int py_set now s (client_detail pk) req =
              (ok 200 j, s\<lparr>clients := map (\<lambda>y. if cid y = pk then c\<lparr>c_updated_at := now\<rparr> else y) (clients s)\<rparr>)"
    unfolding run by auto
next
  fix c kvs
  assume c: "get_client s pk = Some c"
    and b: "body req = JObj kvs \<and>
            (dict_get kvs ''client_name'' = Some (JStr []) \<or>
             req_method req = PUT \<and> dict_get kvs ''client_name'' = None)"
  have run: "urlpatterns py_int py_set now s (client_detail pk) req =
               ClientDetailView_update now s req pk (req_method req = PATCH)"
    using assms(2,3)
    by (auto simp: view_defs ClientDetailView_def ClientDetailView_get_permissions_def)
  have "\<exists>code. client_is_valid (req_method req = PATCH) (body req) = Inl (ValidationError [(''client_name'', code)])"
    using b by (auto simp: client_is_valid_def CharField_missing_or_empty)
  then obtain code where
    v: "client_is_valid (req_method req = PATCH) (body req) = Inl (ValidationError [(''client_name'', code)])"
    by blast
  show "\<exists>es. urlpatterns py_int py_set now s (client_detail pk) req = (Inl (ValidationError es), s)"
    unfolding run using ClientDetailView_update_rejected[OF c v] by blast
qed

theorem ClientDetailView_update_frame_witness:
  "urlpatterns no_int ascending 9 website_db (client_detail 1)
     \<lparr>req_method = PATCH, user = Some bob,
      body = JObj [(''id'', JInt 7), (''created_at'', JInt 0), (''created_by'', JStr ''bob''),
                   (''projects'', JList [])]\<rparr> =
     (ok 200 (JObj [(''id'', JInt 1), (''client_name'', JStr ''Acme''), (''created_at'', JInt 5),
                    (''created_by'', JStr ''alice''), (''updated_at'', JInt 9),
                    (''projects'', JList
                       [JObj [(''id'', JInt 1), (''project_name'', JStr ''Website''),
                              (''client'', JStr ''Acme''),
                              (''users'',
                               JList [JObj [(''id'', JInt 2), (''username'', JStr ''bob'')],
                                      JObj [(''id'', JInt 3), (''username'', JStr ''carol'')]]),
                              (''created_at'', JInt 7), (''created_by'', JStr ''alice'')]])]),
      website_db\<lparr>clients := [acme\<lparr>c_updated_at := 9\<rparr>]\<rparr>) \<and>
   (\<exists>j. urlpatterns no_int ascending 9 website_db (client_detail 1)
          \<lparr>req_method = PUT, user = Some bob,
           body = JObj [(''client_name'', JStr '' Apex '')]\<rparr> =
        (ok 200 j, website_db\<lparr>clients := [acme\<lparr>client_name := ''Apex'', c_updated_at := 9\<rparr>]\<rparr>)) \<and>
   (\<exists>es. urlpatterns no_int ascending 9 website_db (client_detail 1)
           \<lparr>req_method = PUT, user = Some bob, body = JObj []\<rparr> =
         (Inl (ValidationError es), website_db)) \<and>
   urlpatterns no_int ascending 9 website_db (client_detail 4)
     \<lparr>req_method = PUT, user = Some bob, body = JObj [(''client_name'', JStr ''Apex'')]\<rparr> =
     (Inl Http404, website_db)"
proof -
  let ?patch = "\<lparr>req_method = PATCH, user = Some bob,
      body = JObj [(''id'', JInt 7), (''created_at'', JInt 0), (''created_by'', JStr ''bob''),
                   (''projects'', JList [])]\<rparr>"
  let ?put = "\<lparr>req_method = PUT, user = Some bob,
           body = JObj [(''client_name'', JStr '' Apex '')]\<rparr>"
  let ?bad = "\<lparr>req_method = PUT, user = Some bob, body = JObj []\<rparr>"
  let ?gone = "\<lparr>req_method = PUT, user = Some bob,
                 body = JObj [(''client_name'', JStr ''Apex'')]\<rparr>"
  have w: "consistent website_db"
    by (simp add: consistent_def scenario_defs)
  have g: "get_client website_db 1 = Some acme" "get_client website_db 4 = None"
    by (simp_all add: get_client_def scenario_defs)
  have d: "dict_get [(''client_name'', JStr '' Apex '')] ''client_name'' = Some (JStr '' Apex '')"
    "strip '' Apex '' = ''Apex''" "dict_get [] ''client_name'' = None"
    by (simp_all add: dict_get_def strip_def is_space_def)
  have m: "map (\<lambda>y. if cid y = Suc 0 then c else y) (clients website_db) = [c]" for c
    by (simp add: scenario_defs)
  note t = ClientDetailView_update_frame[where s = website_db and u = bob
      and py_int = no_int and py_set = ascending and now = 9, OF w]
  have 1: "\<exists>j. urlpatterns no_int ascending 9 website_db (client_detail 1) ?patch =
             (ok 200 j, website_db\<lparr>clients := [acme\<lparr>c_updated_at := 9\<rparr>]\<rparr>)"
    using t[where req = ?patch and pk = 1] g(1) by (simp add: m dict_get_def)
  have 2: "\<exists>j. urlpatterns no_int ascending 9 website_db (client_detail 1) ?put =
        (ok 200 j, website_db\<lparr>clients := [acme\<lparr>client_name := ''Apex'', c_updated_at := 9\<rparr>]\<rparr>)"
    using t[where req = ?put and pk = 1] g(1) d by (simp add: m)
  have 3: "\<exists>es. urlpatterns no_int ascending 9 website_db (client_detail 1) ?bad =
         (Inl (ValidationError es), website_db)"
    using t[where req = ?bad and pk = 1] g(1) d by simp
  have 4: "urlpatterns no_int ascending 9 website_db (client_detail 4) ?gone =
     (Inl Http404, website_db)"
    using t[where req = ?gone and pk = 4] g(2) by simp
  have 5: "urlpatterns no_int ascending 9 website_db (client_detail 1) ?patch =
     (ok 200 (JObj [(''id'', JInt 1), (''client_name'', JStr ''Acme''), (''created_at'', JInt 5),
                    (''created_by'', JStr ''alice''), (''updated_at'', JInt 9),
                    (''projects'', JList
                       [JObj [(''id'', JInt 1), (''project_name'', JStr ''Website''),
                              (''client'', JStr ''Acme''),
                              (''users'',
                               JList [JObj [(''id'', JInt 2), (''username'', JStr ''bob'')],
                                      JObj [(''id'', JInt 3), (''username'', JStr ''carol'')]]),
                              (''created_at'', JInt 7), (''created_by'', JStr ''alice'')]])]),
      website_db\<lparr>clients := [acme\<lparr>c_updated_at := 9\<rparr>]\<rparr>)"
    using 1
    by (simp add: view_defs ClientDetailView_def ClientDetailView_get_permissions_def
        ClientDetailView_update_def ClientDetailView_get_object_def
        ClientDetailView_perform_update_def save_client_def Let_def
        client_is_valid_def CharField_def dict_get_def
        ClientSerializer_def string_related_user_def fetch_created_by_def
        client_projects_def ProjectSerializer_to_representation_def
        ProjectSerializer_super_def get_client_def get_user_def pk_repr_def
        project_users_all_def UserSerializer_def scenario_defs)
  show ?thesis using 5 2 3 4 by blast
qed

subsection \<open>Creating, then retrieving a client\<close>

lemma client_is_valid_full:
  "client_is_valid False d = Inr vd \<Longrightarrow> \<exists>t. vd = Some t"
  by (auto simp: client_is_valid_def CharField_def run_validators_def
      split: json.splits validated.splits option.splits if_splits)

lemma client_is_valid_text:
  "client_is_valid partial (JObj kvs) = Inr (Some t) \<Longrightarrow>
     dict_get kvs ''client_name'' = Some (JStr x) \<Longrightarrow> t = strip x"
  by (auto simp: client_is_valid_def CharField_def run_validators_def
      split: validated.splits if_splits)

text \<open>
  Claim C9, as stated, fails on the name: the serializer trims the posted text, so the GET
  returns the trimmed name, not the posted one. Alice posts the name `` Acme'', with a
  leading space; the client is stored as ``Acme'' and the GET of \<open>/clients/1/\<close> returns
  ``Acme''.
\<close>

theorem created_client_name_counterexample:
  "urlpatterns no_int ascending 5 empty_db client_list_create
     \<lparr>req_method = POST, user = Some alice, body = JObj [(''client_name'', JStr '' Acme'')]\<rparr> =
     (ok 201 (JObj [(''client_name'', JStr ''Acme'')]), acme_db) \<and>
   urlpatterns no_int ascending 9 acme_db (client_detail 1)
     \<lparr>req_method = GET, user = None, body = JNull\<rparr> =
     (ok 200 (JObj [(''id'', JInt 1), (''client_name'', JStr ''Acme''), (''created_at'', JInt 5),
                    (''created_by'', JStr ''alice''), (''updated_at'', JInt 5),
                    (''projects'', JList [])]), acme_db) \<and>
   JStr ''Acme'' \<noteq> JStr '' Acme''"
  by (simp add: view_defs ClientListCreateView_def ClientListCreateView_get_permissions_def
      ClientListCreateView_create_def ClientListCreateView_perform_create_def
      ClientListCreateView_get_serializer_class_def ClientListCreateView_serializer_data_def
      ClientCreateSerializer_def ClientDetailView_def ClientDetailView_get_permissions_def
      ClientDetailView_retrieve_def ClientDetailView_get_object_def get_client_def
      ClientSerializer_def string_related_user_def fetch_created_by_def get_user_def
      client_projects_def client_is_valid_def CharField_def run_validators_def strip_def
      is_space_def dict_get_def create_client_def Let_def scenario_defs)

text \<open>
  Claim C9, amended. After an authenticated POST of \<open>/clients/\<close> on a consistent database
  has created a client, a GET of \<open>/clients/{id}/\<close> with the new id, by anyone, answers 200
  with the six keys \<open>id\<close>, \<open>client_name\<close>, \<open>created_at\<close>, \<open>created_by\<close>, \<open>updated_at\<close>,
  \<open>projects\<close>: \<open>client_name\<close> is the name the client was stored with, which is the name
  the 201 carried and, for a posted text, that text without its surrounding whitespace (so
  the posted name itself when it has none); \<open>created_by\<close> is the username of the creator,
  both timestamps are the instant of the POST, and \<open>projects\<close> is the empty list.
\<close>

theorem created_client_retrieved:
  assumes "consistent s" and "user req = Some u" and "u \<in> set (users s)"
    and "req_method req = POST"
    and "urlpatterns py_int py_set now s client_list_create req = (Inr resp, s')"
    and "req_method req' = GET"
  shows "\<exists>c. get_client s' (next_client_id s) = Some c \<and>
           c \<notin> set (clients s) \<and>
           resp = \<lparr>status = 201, data = Some (JObj [(''client_name'', JStr (client_name c))])\<rparr> \<and>
           (\<forall>kvs x. body req = JObj kvs \<and> dict_get kvs ''client_name'' = Some (JStr x) \<longrightarrow>
              client_name c = strip x) \<and>
           urlpatterns py_int' py_set' now' s' (client_detail (next_client_id s)) req' =
             (ok 200 (JObj [(''id'', JInt (int (next_client_id s))),
                            (''client_name'', JStr (client_name c)),
                            (''created_at'', JInt (int now)),
                            (''created_by'', JStr (username u)),
                            (''updated_at'', JInt (int now)),
                            (''projects'', JList [])]), s')"
proof -
  let ?n = "next_client_id s"
  have run: "ClientListCreateView_create now s req = (Inr resp, s')"
    using assms(2,4,5)
    by (simp add: view_defs ClientListCreateView_def ClientListCreateView_get_permissions_def)
  then obtain vd where vd: "client_is_valid False (body req) = Inr vd"
    by (cases "client_is_valid False (body req)")
      (auto simp: ClientListCreateView_create_def)
  then obtain t where t: "vd = Some t"
    using client_is_valid_full by blast
  define c where "c = \<lparr>cid = ?n, client_name = t, c_created_at = now,
                        c_created_by = Some (uid u), c_updated_at = now\<rparr>"
  have s': "s' = s\<lparr>clients := clients s @ [c], next_client_id := Suc ?n\<rparr>"
    and resp: "resp = \<lparr>status = 201, data = Some (JObj [(''client_name'', JStr t)])\<rparr>"
    using run vd t assms(2,4)
    by (auto simp: ClientListCreateView_create_def ClientListCreateView_perform_create_def
        ClientListCreateView_get_serializer_class_def ClientListCreateView_serializer_data_def
        ClientCreateSerializer_def create_client_def Let_def ok_def c_def)
  have old: "\<forall>x\<in>set (clients s). cid x \<noteq> ?n"
    using wf_client_refs(1)[OF assms(1)] by fastforce
  then have "find (\<lambda>x. cid x = ?n) (clients s) = None"
    by (simp add: find_None_all)
  then have g: "get_client s' ?n = Some c"
    by (simp add: get_client_def s' find_append c_def)
  have fresh: "c \<notin> set (clients s)"
    using old by (auto simp: c_def)
  have "\<forall>p\<in>set (projects s). p_client p \<noteq> ?n"
    using wf_project_refs(1)[OF assms(1)] old by fastforce
  then have ps: "client_projects s' ?n = []"
    by (simp add: client_projects_def s' filter_empty_conv)
  have "distinct (map uid (users s))"
    using assms(1) by (simp add: consistent_def)
  then have "get_user s' (uid u) = Some u"
    using find_distinct_key[of uid "users s" u] assms(3) by (simp add: get_user_def s')
  then have cb: "string_related_user s' (c_created_by c) = Inr (JStr (username u))"
    by (simp add: string_related_user_def fetch_created_by_def c_def)
  have "ClientSerializer s' c =
          Inr (JObj [(''id'', JInt (int ?n)), (''client_name'', JStr t),
                     (''created_at'', JInt (int now)), (''created_by'', JStr (username u)),
                     (''updated_at'', JInt (int now)), (''projects'', JList [])])"
    using cb ps by (simp add: ClientSerializer_def c_def)
  then have get: "urlpatterns py_int' py_set' now' s' (client_detail ?n) req' =
             (ok 200 (JObj [(''id'', JInt (int ?n)), (''client_name'', JStr t),
                            (''created_at'', JInt (int now)),
                            (''created_by'', JStr (username u)),
                            (''updated_at'', JInt (int now)),
                            (''projects'', JList [])]), s')"
    using assms(6) g
    by (simp add: view_defs ClientDetailView_def ClientDetailView_get_permissions_def
        ClientDetailView_retrieve_def ClientDetailView_get_object_def)
  have tx: "\<forall>kvs x. body req = JObj kvs \<and> dict_get kvs ''client_name'' = Some (JStr x) \<longrightarrow>
              client_name c = strip x"
    using vd t client_is_valid_text by (auto simp: c_def)
  have nm: "client_name c = t" by (simp add: c_def)
  show ?thesis
    using g fresh resp get tx unfolding nm[symmetric] by blast
qed

theorem created_client_retrieved_witness:
  "urlpatterns no_int ascending 5 empty_db client_list_create
     \<lparr>req_method = POST, user = Some alice, body = JObj [(''client_name'', JStr ''Acme  '')]\<rparr> =
     (ok 201 (JObj [(''client_name'', JStr ''Acme'')]), acme_db) \<and>
   urlpatterns no_int ascending 9 acme_db (client_detail 1)
     \<lparr>req_method = GET, user = None, body = JNull\<rparr> =
     (ok 200 (JObj [(''id'', JInt 1), (''client_name'', JStr ''Acme''), (''created_at'', JInt 5),
                    (''created_by'', JStr ''alice''), (''updated_at'', JInt 5),
                    (''projects'', JList [])]), acme_db)"
proof -
  let ?req = "\<lparr>req_method = POST, user = Some alice,
                body = JObj [(''client_name'', JStr ''Acme  '')]\<rparr>"
  have post: "urlpatterns no_int ascending 5 empty_db client_list_create ?req =
     (Inr \<lparr>status = 201, data = Some (JObj [(''client_name'', JStr ''Acme'')])\<rparr>, acme_db)"
    by (simp add: view_defs ClientListCreateView_def ClientListCreateView_get_permissions_def
      ClientListCreateView_create_def ClientListCreateView_perform_create_def
      ClientListCreateView_get_serializer_class_def ClientListCreateView_serializer_data_def
      ClientCreateSerializer_def
      client_is_valid_def CharField_def run_validators_def strip_def is_space_def dict_get_def
      create_client_def Let_def scenario_defs)
  have w: "consistent empty_db" "alice \<in> set (users empty_db)"
    by (simp_all add: consistent_def scenario_defs)
  have n: "next_client_id empty_db = 1" "uid alice = 1" "username alice = ''alice''"
    by (simp_all add: scenario_defs)
  show ?thesis
    using created_client_retrieved[where s = empty_db and req = ?req and u = alice
        and req' = "\<lparr>req_method = GET, user = None, body = JNull\<rparr>" and py_int = no_int
        and py_set = ascending and now = 5 and py_int' = no_int and py_set' = ascending
        and now' = 9 and s' = acme_db
        and resp = "\<lparr>status = 201, data = Some (JObj [(''client_name'', JStr ''Acme'')])\<rparr>"]
      post w n
    by (auto simp: ok_def)
qed

subsection \<open>Requests keep the database consistent\<close>

text \<open>
  Consistency is kept by every request whose caller, if any, is a user of the database, and
  by the deletion of a user, provided a Python set yields each of its elements once. So the
  consistent databases include all those the API reaches from a consistent one.
\<close>

lemma consistent_iff:
  "consistent s \<longleftrightarrow>
     distinct (map uid (users s)) \<and> distinct (map cid (clients s)) \<and>
     distinct (map pid (projects s)) \<and> distinct (project_users s) \<and>
     (\<forall>c\<in>set (clients s). cid c < next_client_id s) \<and>
     (\<forall>p\<in>set (projects s). pid p < next_project_id s) \<and>
     (\<forall>c\<in>set (clients s). \<forall>i. c_created_by c = Some i \<longrightarrow> i \<in> uid ` set (users s)) \<and>
     (\<forall>p\<in>set (projects s). p_client p \<in> cid ` set (clients s)) \<and>
     (\<forall>p\<in>set (projects s). \<forall>i. p_created_by p = Some i \<longrightarrow> i \<in> uid ` set (users s)) \<and>
     (\<forall>(p, u)\<in>set (project_users s). p \<in> pid ` set (projects s) \<and> u \<in> uid ` set (users s))"
  unfolding consistent_def list_all_iff
  by (auto split: option.splits)

lemma consistent_create_client:
  assumes "consistent s" and "i \<in> set (map uid (users s))"
  shows "consistent (snd (create_client now s name i))"
proof -
  have "next_client_id s \<notin> cid ` set (clients s)"
    using assms(1) unfolding consistent_iff by fastforce
  then show ?thesis
    using assms unfolding consistent_iff
    by (auto simp: create_client_def Let_def less_Suc_eq)
qed

lemma consistent_delete_client:
  assumes "consistent s"
  shows "consistent (delete_client s c)"
proof -
  have d: "distinct (map cid (filter (\<lambda>x. cid x \<noteq> cid c) (clients s)))"
    "distinct (map pid (filter (\<lambda>p. p_client p \<noteq> cid c) (projects s)))"
    using assms by (simp_all add: consistent_iff distinct_map_filter)
  have rows: "p \<in> pid ` {q \<in> set (projects s). p_client q \<noteq> cid c}"
    if "(p, u) \<in> set (project_users s)"
      and "p \<notin> pid ` set (client_projects s (cid c))" for p u
  proof -
    from that(1) assms obtain q where q: "q \<in> set (projects s)" "pid q = p"
      unfolding consistent_iff by auto
    then have "p_client q \<noteq> cid c"
      using that(2) by (auto simp: client_projects_def)
    then show ?thesis using q by auto
  qed
  have cl: "p_client p \<in> cid ` {x \<in> set (clients s). cid x \<noteq> cid c}"
    if "p \<in> set (projects s)" and "p_client p \<noteq> cid c" for p
    using that assms unfolding consistent_iff by auto
  show ?thesis
    unfolding consistent_iff
  proof (intro conjI)
    show "\<forall>(p, u)\<in>set (project_users (delete_client s c)).
            p \<in> pid ` set (projects (delete_client s c)) \<and>
            u \<in> uid ` set (users (delete_client s c))"
      using rows assms unfolding consistent_iff by (auto simp: delete_client_def)
    show "\<forall>p\<in>set (projects (delete_client s c)).
            p_client p \<in> cid ` set (clients (delete_client s c))"
      using cl by (auto simp: delete_client_def)
  qed (use assms d in \<open>auto simp: consistent_iff delete_client_def\<close>)
qed

lemma consistent_create_project:
  assumes "consistent s" and "c \<in> set (clients s)" and "i \<in> set (map uid (users s))"
    and "set us \<subseteq> set (users s)"
    and "\<forall>xs. distinct (py_set xs) \<and> set (py_set xs) = set xs"
  shows "consistent (snd (create_project py_set now s name us c i))"
proof -
  let ?n = "next_project_id s"
  let ?new = "map (\<lambda>i. (?n, i)) (py_set (map uid us))"
  have fresh: "?n \<notin> pid ` set (projects s)"
    using assms(1) unfolding consistent_iff by fastforce
  have "\<forall>(p, u)\<in>set (project_users s). p \<in> pid ` set (projects s)"
    using assms(1) unfolding consistent_iff by auto
  then have disj: "set (project_users s) \<inter> set ?new = {}"
    using fresh by auto
  have "distinct ?new"
    using assms(5) by (simp add: distinct_map inj_on_def)
  then have d: "distinct (project_users s @ ?new)"
    using assms(1) disj by (simp add: consistent_iff)
  have new: "\<forall>(p, v)\<in>set ?new. p = ?n \<and> v \<in> uid ` set (users s)"
    using assms(4,5) by auto
  show ?thesis
    using assms(1-3) d fresh new unfolding consistent_iff
    by (auto simp: create_project_def Let_def less_Suc_eq)
qed

lemma consistent_delete_user:
  assumes "consistent s"
  shows "consistent (delete_user s i)"
proof -
  let ?us = "filter (\<lambda>u. uid u \<noteq> i) (users s)"
  let ?cs = "map (\<lambda>c. if c_created_by c = Some i then c\<lparr>c_created_by := None\<rparr> else c) (clients s)"
  let ?ps = "map (\<lambda>p. if p_created_by p = Some i then p\<lparr>p_created_by := None\<rparr> else p) (projects s)"
  let ?pu = "filter (\<lambda>(p, u). u \<noteq> i) (project_users s)"
  have sel: "users (delete_user s i) = ?us" "clients (delete_user s i) = ?cs"
    "projects (delete_user s i) = ?ps" "project_users (delete_user s i) = ?pu"
    "next_client_id (delete_user s i) = next_client_id s"
    "next_project_id (delete_user s i) = next_project_id s"
    by (simp_all add: delete_user_def)
  have k: "map cid ?cs = map cid (clients s)" "map pid ?ps = map pid (projects s)"
    by (simp_all add: comp_def if_distrib cong: if_cong)
  have img: "cid ` set ?cs = cid ` set (clients s)" "pid ` set ?ps = pid ` set (projects s)"
    using k by (metis list.set_map)+
  have u: "j \<in> uid ` set ?us" if "j \<in> uid ` set (users s)" "j \<noteq> i" for j
    using that by auto
  have cm: "\<exists>q\<in>set (clients s). cid c = cid q \<and>
              (\<forall>j. c_created_by c = Some j \<longrightarrow> c_created_by q = Some j \<and> j \<noteq> i)"
    if "c \<in> set ?cs" for c
    using that by (auto split: if_splits)
  have pm: "\<exists>q\<in>set (projects s). pid p = pid q \<and> p_client p = p_client q \<and>
              (\<forall>j. p_created_by p = Some j \<longrightarrow> p_created_by q = Some j \<and> j \<noteq> i)"
    if "p \<in> set ?ps" for p
    using that by (auto split: if_splits)
  note c = assms[unfolded consistent_iff]
  show ?thesis
    unfolding consistent_iff sel
  proof (intro conjI)
    show "distinct (map uid ?us)" using c by (simp add: distinct_map_filter)
    show "distinct (map cid ?cs)" unfolding k using c by blast
    show "distinct (map pid ?ps)" unfolding k using c by blast
    show "distinct ?pu" using c by simp
    show "\<forall>c\<in>set ?cs. cid c < next_client_id s" using c by auto
    show "\<forall>p\<in>set ?ps. pid p < next_project_id s" using c by auto
    show "\<forall>c\<in>set ?cs. \<forall>j. c_created_by c = Some j \<longrightarrow> j \<in> uid ` set ?us"
    proof (intro ballI allI impI)
      fix x j assume "x \<in> set ?cs" "c_created_by x = Some j"
      with cm obtain q where "q \<in> set (clients s)" "c_created_by q = Some j" "j \<noteq> i"
        by blast
      then show "j \<in> uid ` set ?us" using c u by blast
    qed
    show "\<forall>p\<in>set ?ps. p_client p \<in> cid ` set ?cs"
      unfolding img
    proof
      fix x assume "x \<in> set ?ps"
      with pm obtain q where "q \<in> set (projects s)" "p_client x = p_client q"
        by blast
      then show "p_client x \<in> cid ` set (clients s)" using c by simp
    qed
    show "\<forall>p\<in>set ?ps. \<forall>j. p_created_by p = Some j \<longrightarrow> j \<in> uid ` set ?us"
    proof (intro ballI allI impI)
      fix x j assume "x \<in> set ?ps" "p_created_by x = Some j"
      with pm obtain q where "q \<in> set (projects s)" "p_created_by q = Some j" "j \<noteq> i"
        by blast
      then show "j \<in> uid ` set ?us" using c u by blast
    qed
    show "\<forall>(p, u)\<in>set ?pu. p \<in> pid ` set ?ps \<and> u \<in> uid ` set ?us"
      unfolding img
    proof (intro ballI, clarify)
      fix p v assume "(p, v) \<in> set ?pu"
      then have "(p, v) \<in> set (project_users s)" "v \<noteq> i" by auto
      then show "p \<in> pid ` set (projects s) \<and> v \<in> uid ` set ?us"
        using c u by fastforce
    qed
  qed
qed

lemma pk_to_internal_mem: "pk_to_internal py_int s j = Inr u \<Longrightarrow> u \<in> set (users s)"
  by (auto simp: pk_to_internal_def user_by_pk_def get_user_def
      split: json.splits option.splits if_splits dest: find_SomeD)

lemma pks_to_internal_mem:
  "pks_to_internal py_int s js = Inr us \<Longrightarrow> set us \<subseteq> set (users s)"
proof (induction js arbitrary: us)
  case Nil
  then show ?case by simp
next
  case (Cons j js)
  then show ?case
    by (auto split: sum.splits dest: pk_to_internal_mem)
qed

lemma project_is_valid_users:
  "project_is_valid py_int s d = Inr (t, us) \<Longrightarrow> set us \<subseteq> set (users s)"
  by (auto simp: project_is_valid_def users_field_def many_related_def
      split: json.splits validated.splits option.splits sum.splits
      dest!: pks_to_internal_mem)

lemma ClientListCreateView_create_state:
  "snd (ClientListCreateView_create now s req) = s \<or>
   (\<exists>u name. user req = Some u \<and>
      snd (ClientListCreateView_create now s req) = snd (create_client now s name (uid u)))"
proof (cases "client_is_valid False (body req)")
  case (Inl e)
  then show ?thesis by (simp add: ClientListCreateView_create_def)
next
  case (Inr vd)
  show ?thesis
  proof (cases "user req")
    case None
    then show ?thesis
      using Inr
      by (simp add: ClientListCreateView_create_def ClientListCreateView_perform_create_def)
  next
    case (Some u)
    obtain c s1 where cs:
      "create_client now s (case vd of None \<Rightarrow> [] | Some t \<Rightarrow> t) (uid u) = (c, s1)"
      by (cases "create_client now s (case vd of None \<Rightarrow> [] | Some t \<Rightarrow> t) (uid u)")
    then have "snd (ClientListCreateView_create now s req) = s1"
      using Inr Some
      by (simp add: ClientListCreateView_create_def ClientListCreateView_perform_create_def
          split: sum.splits)
    then show ?thesis using cs Some by (metis snd_conv)
  qed
qed

lemma consistent_ClientListCreateView:
  assumes "consistent s" and "\<forall>u. user req = Some u \<longrightarrow> u \<in> set (users s)"
  shows "consistent (snd (ClientListCreateView now s req))"
proof -
  have c: "consistent (snd (ClientListCreateView_create now s req))"
    using ClientListCreateView_create_state[of now s req] assms consistent_create_client
    by fastforce
  have l: "snd (ClientListCreateView_list s req) = s"
    by (simp add: ClientListCreateView_list_def split: sum.splits)
  show ?thesis
    using c l assms(1)
    by (simp add: ClientListCreateView_def split: option.splits http_method.splits)
qed

lemma ClientDetailView_update_state:
  "snd (ClientDetailView_update now s req pk partial) = s \<or>
   (\<exists>c vd. get_client s pk = Some c \<and>
      snd (ClientDetailView_update now s req pk partial) =
        snd (save_client now s (case vd of None \<Rightarrow> c | Some t \<Rightarrow> c\<lparr>client_name := t\<rparr>)))"
proof (cases "get_client s pk")
  case None
  then show ?thesis
    by (simp add: ClientDetailView_update_def ClientDetailView_get_object_def)
next
  case (Some c)
  show ?thesis
  proof (cases "client_is_valid partial (body req)")
    case (Inl e)
    then show ?thesis
      using Some by (simp add: ClientDetailView_update_def ClientDetailView_get_object_def)
  next
    case (Inr vd)
    obtain c' s1 where cs:
      "save_client now s (case vd of None \<Rightarrow> c | Some t \<Rightarrow> c\<lparr>client_name := t\<rparr>) = (c', s1)"
      by (cases "save_client now s (case vd of None \<Rightarrow> c | Some t \<Rightarrow> c\<lparr>client_name := t\<rparr>)")
    then have "snd (ClientDetailView_update now s req pk partial) = s1"
      using Inr Some
      by (simp add: ClientDetailView_update_def ClientDetailView_get_object_def
          ClientDetailView_perform_update_def split: sum.splits)
    then show ?thesis using cs Some by (metis snd_conv)
  qed
qed

lemma consistent_ClientDetailView_update:
  assumes "consistent s"
  shows "consistent (snd (ClientDetailView_update now s req pk partial))"
proof -
  consider "snd (ClientDetailView_update now s req pk partial) = s"
    | c vd where "get_client s pk = Some c"
        "snd (ClientDetailView_update now s req pk partial) =
           snd (save_client now s (case vd of None \<Rightarrow> c | Some t \<Rightarrow> c\<lparr>client_name := t\<rparr>))"
    using ClientDetailView_update_state[of now s req pk partial] by blast
  then show ?thesis
  proof cases
    case 1
    then show ?thesis using assms by simp
  next
    case 2
    have "c \<in> set (clients s)" using 2(1) get_client_mem by blast
    from wf_save_client[OF assms this, of "case vd of None \<Rightarrow> c | Some t \<Rightarrow> c\<lparr>client_name := t\<rparr>" now]
    show ?thesis using 2(2) by (cases vd) simp_all
  qed
qed

lemma consistent_ClientDetailView:
  assumes "consistent s"
  shows "consistent (snd (ClientDetailView now s pk req))"
proof -
  have r: "snd (ClientDetailView_retrieve s pk) = s"
    by (simp add: ClientDetailView_retrieve_def split: sum.splits)
  have d: "consistent (snd (ClientDetailView_destroy s pk))"
    using assms consistent_delete_client
    by (simp add: ClientDetailView_destroy_def split: sum.splits)
  show ?thesis
    using r d assms consistent_ClientDetailView_update[OF assms]
    by (simp add: ClientDetailView_def split: option.splits http_method.splits)
qed

lemma ProjectCreateView_create_state:
  "snd (ProjectCreateView_create py_int py_set now s req pk) = s \<or>
   (\<exists>u c t us. user req = Some u \<and> get_client s pk = Some c \<and>
      project_is_valid py_int s (body req) = Inr (t, us) \<and>
      snd (ProjectCreateView_create py_int py_set now s req pk) =
        snd (create_project py_set now s t us c (uid u)))"
proof (cases "project_is_valid py_int s (body req)")
  case (Inl e)
  then show ?thesis
    by (simp add: ProjectCreateView_create_def ProjectCreateView_super_create_def)
next
  case (Inr vd)
  obtain t us where vd: "vd = (t, us)" by (cases vd)
  show ?thesis
  proof (cases "get_client s pk")
    case None
    then show ?thesis
      using Inr
      by (simp add: ProjectCreateView_create_def ProjectCreateView_super_create_def
          ProjectCreateView_perform_create_def)
  next
    case (Some c)
    show ?thesis
    proof (cases "user req")
      case None
      then show ?thesis
        using Inr Some
        by (simp add: ProjectCreateView_create_def ProjectCreateView_super_create_def
            ProjectCreateView_perform_create_def)
    next
      case u: (Some u)
      obtain p s1 where cs: "create_project py_set now s t us c (uid u) = (p, s1)"
        by (cases "create_project py_set now s t us c (uid u)")
      then have "snd (ProjectCreateView_create py_int py_set now s req pk) = s1"
        using Inr Some u vd
        by (simp add: ProjectCreateView_create_def ProjectCreateView_super_create_def
            ProjectCreateView_perform_create_def split: sum.splits option.splits)
      then show ?thesis using cs Some u Inr vd by (metis snd_conv)
    qed
  qed
qed

lemma consistent_ProjectCreateView:
  assumes "consistent s" and "\<forall>u. user req = Some u \<longrightarrow> u \<in> set (users s)"
    and "\<forall>xs. distinct (py_set xs) \<and> set (py_set xs) = set xs"
  shows "consistent (snd (ProjectCreateView py_int py_set now s pk req))"
proof -
  consider "snd (ProjectCreateView_create py_int py_set now s req pk) = s"
    | u c t us where "user req = Some u" "get_client s pk = Some c"
        "project_is_valid py_int s (body req) = Inr (t, us)"
        "snd (ProjectCreateView_create py_int py_set now s req pk) =
           snd (create_project py_set now s t us c (uid u))"
    using ProjectCreateView_create_state[of py_int py_set now s req pk] by blast
  then have c: "consistent (snd (ProjectCreateView_create py_int py_set now s req pk))"
  proof cases
    case 1
    then show ?thesis using assms by simp
  next
    case 2
    have "c \<in> set (clients s)" using 2(2) get_client_mem by blast
    moreover have "uid u \<in> set (map uid (users s))" using assms(2) 2(1) by simp
    moreover have "set us \<subseteq> set (users s)" using project_is_valid_users[OF 2(3)] .
    ultimately show ?thesis
      using consistent_create_project[OF assms(1) _ _ _ assms(3)] 2(4) by simp
  qed
  show ?thesis
    using c assms(1)
    by (simp add: ProjectCreateView_def split: option.splits http_method.splits)
qed

lemma consistent_UserProjectsView: "snd (UserProjectsView s req) = s"
  by (auto simp: UserProjectsView_def UserProjectsView_list_def
      split: option.splits http_method.splits sum.splits)

lemma consistent_urlpatterns:
  assumes "consistent s" and "\<forall>u. user req = Some u \<longrightarrow> u \<in> set (users s)"
    and "\<forall>xs. distinct (py_set xs) \<and> set (py_set xs) = set xs"
  shows "consistent (snd (urlpatterns py_int py_set now s r req))"
proof (cases r)
  case client_list_create
  then show ?thesis
    using consistent_ClientListCreateView[OF assms(1,2)] by (simp add: urlpatterns_def)
next
  case (client_detail pk)
  then show ?thesis
    using consistent_ClientDetailView[OF assms(1)] by (simp add: urlpatterns_def)
next
  case (project_create pk)
  then show ?thesis
    using consistent_ProjectCreateView[OF assms] by (simp add: urlpatterns_def)
next
  case user_projects
  then show ?thesis
    using assms(1) by (simp add: urlpatterns_def consistent_UserProjectsView)
qed

text \<open>Deleting the creator of a project leaves it rendered with \<open>created_by\<close> null.\<close>

lemma deleted_creator_renders_null:
  assumes "consistent s" and "p \<in> set (projects s)" and "p_created_by p = Some i"
  shows "\<exists>rep. ProjectSerializer_to_representation (delete_user s i)
                 (p\<lparr>p_created_by := None\<rparr>) = Inr (JObj rep) \<and>
               dict_get rep ''created_by'' = Some JNull"
proof -
  have c: "consistent (delete_user s i)"
    using consistent_delete_user[OF assms(1)] .
  have m: "p\<lparr>p_created_by := None\<rparr> \<in> set (projects (delete_user s i))"
    using assms(2,3) by (force simp: delete_user_def)
  from c m obtain cl cb where
    "get_client (delete_user s i) (p_client (p\<lparr>p_created_by := None\<rparr>)) = Some cl"
    "case p_created_by (p\<lparr>p_created_by := None\<rparr>) of
       None \<Rightarrow> cb = JNull
     | Some j \<Rightarrow> \<exists>u\<in>set (users (delete_user s i)). uid u = j \<and> cb = JStr (username u)"
    "ProjectSerializer_to_representation (delete_user s i) (p\<lparr>p_created_by := None\<rparr>) =
       Inr (JObj [(''id'', JInt (int (pid (p\<lparr>p_created_by := None\<rparr>)))),
                  (''project_name'', JStr (project_name (p\<lparr>p_created_by := None\<rparr>))),
                  (''client'', JStr (client_name cl)),
                  (''users'', JList (map UserSerializer
                     (project_users_all (delete_user s i) (pid (p\<lparr>p_created_by := None\<rparr>))))),
                  (''created_at'', JInt (int (p_created_at (p\<lparr>p_created_by := None\<rparr>)))),
                  (''created_by'', cb)])"
    by (rule ProjectSerializer_wf)
  then show ?thesis by (simp add: dict_get_def)
qed

end
